theory Spec2Isabelle
  imports Main "HOL-Library.Multiset"
begin

section \<open>Data model\<close>

text \<open>
  A row of the \<open>Server\<close> table, with the fields the monitoring and restart services
  read or write. The status column holds one of the strings \<open>online\<close>, \<open>offline\<close>,
  \<open>unknown\<close>. Timestamps are milliseconds since the epoch.
\<close>

datatype host_status = Online | Offline | Unknown

record server =
  server_id :: nat
  name :: string
  hostname :: string
  ipAddress :: string
  port :: nat
  restartOrder :: int
  restartDelay :: int
  isActive :: bool
  status :: host_status
  lastPing :: "int option"
  lastTelnet :: "int option"

text \<open>
  Decimal rendering of a number inside a template literal (\<open>`${code}`\<close>).
\<close>

fun digits :: "nat \<Rightarrow> string" where
  "digits n =
     (if n < 10 then [''0123456789'' ! n]
      else digits (n div 10) @ [''0123456789'' ! (n mod 10)])"

declare digits.simps [simp del]

definition show_int :: "int \<Rightarrow> string" where
  "show_int i = (if i < 0 then CHR ''-'' # digits (nat (- i)) else digits (nat i))"

section \<open>Child processes and promises\<close>

text \<open>
  \<open>pingServer\<close> and \<open>executeSSHReboot\<close> spawn a child process, register handlers on it
  and arm a timer that is never cleared. The promise they return is settled by the first
  handler that calls \<open>resolve\<close> or \<open>reject\<close>; a settled promise ignores every later call.
  The input of the model is the sequence of events delivered to the handlers, in order.
  \<open>TimerFired\<close> is the timer's callback; a sequence that ends without a settling event
  stands for a process that stays silent until the timer fires.
\<close>

datatype proc_event =
    Stdout string
  | Stderr string
  | Close "int option"
  | ProcError string
  | TimerFired

text \<open>The restart service's \<open>pingServer\<close>: only \<open>close\<close>, \<open>error\<close> and the 5 s timer are handled.\<close>

fun restart_pingServer :: "proc_event list \<Rightarrow> bool" where
  "restart_pingServer [] = False"
| "restart_pingServer (Close code # es) = (code = Some 0)"
| "restart_pingServer (ProcError m # es) = False"
| "restart_pingServer (TimerFired # es) = False"
| "restart_pingServer (Stdout d # es) = restart_pingServer es"
| "restart_pingServer (Stderr d # es) = restart_pingServer es"

text \<open>
  \<open>executeSSHReboot\<close>: \<open>stderr\<close> chunks are accumulated; \<open>close\<close> resolves on exit code
  \<open>0\<close>, \<open>null\<close> or \<open>255\<close> and otherwise rejects with the accumulated \<open>stderr\<close>, or with a
  message naming the exit code when \<open>stderr\<close> is empty; \<open>error\<close> rejects; the 15 s timer
  kills the process and rejects. \<open>Inl\<close> is the message of the rejection.
\<close>

fun sshSession :: "string \<Rightarrow> proc_event list \<Rightarrow> string + bool" where
  "sshSession err [] = Inl ''SSH command timeout''"
| "sshSession err (Stdout d # es) = sshSession err es"
| "sshSession err (Stderr d # es) = sshSession (err @ d) es"
| "sshSession err (Close None # es) = Inr True"
| "sshSession err (Close (Some c) # es) =
     (if c = 0 \<or> c = 255 then Inr True
      else Inl (if err \<noteq> [] then err
                else ''SSH command failed with exit code '' @ show_int c))"
| "sshSession err (ProcError m # es) = Inl (''SSH connection failed: '' @ m)"
| "sshSession err (TimerFired # es) = Inl ''SSH command timeout''"

definition executeSSHReboot :: "proc_event list \<Rightarrow> string + bool" where
  "executeSSHReboot evs = sshSession [] evs"

text \<open>What the \<open>stderr\<close> handler has collected from a sequence of events.\<close>

definition stderrOf :: "proc_event list \<Rightarrow> string" where
  "stderrOf evs = concat (map (\<lambda>e. case e of Stderr d \<Rightarrow> d | _ \<Rightarrow> []) evs)"

text \<open>Events that neither resolve nor reject: output chunks.\<close>

fun isOutput :: "proc_event \<Rightarrow> bool" where
  "isOutput (Stdout d) = True"
| "isOutput (Stderr d) = True"
| "isOutput e = False"

section \<open>The restart service\<close>

text \<open>
  \<open>servers.sort((a, b) => a.restartOrder - b.restartOrder)\<close>: the built-in sort is
  stable, so it is modelled by the stable insertion sort for that comparator: an element
  goes before the first one it does not compare greater than.
\<close>

definition compareOrder :: "server \<Rightarrow> server \<Rightarrow> int" where
  "compareOrder a b = restartOrder a - restartOrder b"

fun insertServer :: "server \<Rightarrow> server list \<Rightarrow> server list" where
  "insertServer x [] = [x]"
| "insertServer x (y # ys) =
     (if compareOrder x y \<le> 0 then x # y # ys else y # insertServer x ys)"

fun sortServers :: "server list \<Rightarrow> server list" where
  "sortServers [] = []"
| "sortServers (x # xs) = insertServer x (sortServers xs)"

text \<open>
  The \<open>RestartLog\<close> row of a batch. Its \<open>details\<close> column holds either the per-host
  entries \<open>{servers, errors}\<close> or, after an orchestration error, \<open>{error}\<close>.
\<close>

datatype batch_status = Running | Completed | Failed

record success_entry =
  se_id :: nat
  se_name :: string
  se_hostname :: string
  se_status :: string
  se_timestamp :: int

record error_entry =
  ee_serverId :: nat
  ee_serverName :: string
  ee_error :: string

record details =
  d_servers :: "success_entry list"
  d_errors :: "error_entry list"

datatype log_details = HostDetails details | ErrorDetail string

record restart_log =
  log_id :: nat
  log_status :: batch_status
  log_details :: "log_details option"
  endTime :: "int option"

definition statusText :: "batch_status \<Rightarrow> string" where
  "statusText st = (case st of Running \<Rightarrow> ''running'' | Completed \<Rightarrow> ''completed''
                    | Failed \<Rightarrow> ''failed'')"

text \<open>A \<open>restart-status\<close> message handed to \<open>io.emit\<close>.\<close>

record restart_status =
  rs_logId :: nat
  rs_serverId :: "nat option"
  rs_status :: string
  rs_message :: string
  rs_details :: "details option"

text \<open>
  What the orchestrator does to the outside world, in order: the calls of \<open>pingServer\<close>
  and \<open>executeSSHReboot\<close>, the awaited pauses (the time in milliseconds after which the
  timer fires) and the emitted messages. \<open>io.emit\<close> and the logger are taken to return
  normally.
\<close>

datatype effect =
    PingCall server
  | RebootCall server
  | Sleep int
  | Emit restart_status

text \<open>
  The environment of one batch: the events each host's ping and ssh processes deliver,
  the clock readings, and whether the store accepts the two \<open>restartLog.update\<close> calls
  (\<open>None\<close>: accepted; \<open>Some m\<close>: the call rejects with message \<open>m\<close>).
\<close>

record restart_env =
  pingOf :: "server \<Rightarrow> proc_event list"
  sshOf :: "server \<Rightarrow> proc_event list"
  stampOf :: "server \<Rightarrow> int"
  finalWrite :: "string option"
  finalClock :: int
  handlerWrite :: "string option"
  handlerClock :: int

text \<open>
  \<open>setTimeout(resolve, delay)\<close>: the timer keeps its delay in a signed 32-bit number of
  milliseconds; a delay above \<open>2147483647\<close> or below \<open>1\<close> is replaced by \<open>1\<close>.
\<close>

definition timerDelay :: "int \<Rightarrow> int" where
  "timerDelay ms = (if ms > 2147483647 \<or> ms < 1 then 1 else ms)"

definition emitIf :: "bool \<Rightarrow> restart_status \<Rightarrow> effect list" where
  "emitIf io m = (if io then [Emit m] else [])"

text \<open>The inner \<open>catch\<close> block: record the error for this host and emit it.\<close>

definition recordFailure ::
  "bool \<Rightarrow> nat \<Rightarrow> server \<Rightarrow> string \<Rightarrow> details \<times> effect list \<Rightarrow> details \<times> effect list" where
  "recordFailure io logId s m acc =
     (case acc of (d, tr) \<Rightarrow>
        (d\<lparr>d_errors := d_errors d @
              [\<lparr>ee_serverId = server_id s, ee_serverName = name s, ee_error = m\<rparr>]\<rparr>,
         tr @ emitIf io
           \<lparr>rs_logId = logId, rs_serverId = Some (server_id s), rs_status = ''error'',
            rs_message = ''Failed to restart '' @ name s @ '': '' @ m,
            rs_details = None\<rparr>))"

text \<open>The body of the \<open>for\<close> loop, for one host.\<close>

definition restartServer ::
  "bool \<Rightarrow> restart_env \<Rightarrow> nat \<Rightarrow> server \<Rightarrow> details \<times> effect list \<Rightarrow> details \<times> effect list" where
  "restartServer io env logId s acc =
     (case acc of (d, tr) \<Rightarrow>
        if \<not> restart_pingServer (pingOf env s) then
          recordFailure io logId s
            (''Server '' @ ipAddress s @ '' is not reachable via ping'')
            (d, tr @ [PingCall s])
        else
          (case executeSSHReboot (sshOf env s) of
             Inl m \<Rightarrow> recordFailure io logId s m (d, tr @ [PingCall s, RebootCall s])
           | Inr ok \<Rightarrow>
               (d\<lparr>d_servers := d_servers d @
                     [\<lparr>se_id = server_id s, se_name = name s, se_hostname = hostname s,
                       se_status = ''success'', se_timestamp = stampOf env s\<rparr>]\<rparr>,
                tr @ [PingCall s, RebootCall s]
                  @ emitIf io
                      \<lparr>rs_logId = logId, rs_serverId = Some (server_id s),
                       rs_status = ''restarted'',
                       rs_message = ''Server '' @ name s @ '' restart command sent successfully'',
                       rs_details = None\<rparr>
                  @ (if restartDelay s > 0 then [Sleep (timerDelay (restartDelay s * 1000))]
                     else []))))"

fun restartLoop ::
  "bool \<Rightarrow> restart_env \<Rightarrow> nat \<Rightarrow> server list \<Rightarrow> details \<times> effect list \<Rightarrow> details \<times> effect list" where
  "restartLoop io env logId [] acc = acc"
| "restartLoop io env logId (s # ss) acc =
     restartLoop io env logId ss (restartServer io env logId s acc)"

text \<open>The part of \<open>executeRestart\<close> up to the end of the loop.\<close>

definition runHosts ::
  "bool \<Rightarrow> restart_env \<Rightarrow> server list \<Rightarrow> restart_log \<Rightarrow> details \<times> effect list" where
  "runHosts io env servers log =
     restartLoop io env (log_id log) (sortServers servers)
       (\<lparr>d_servers = [], d_errors = []\<rparr>,
        emitIf io \<lparr>rs_logId = log_id log, rs_serverId = None, rs_status = ''started'',
                   rs_message = ''Restart process initiated'', rs_details = None\<rparr>)"

text \<open>
  \<open>executeRestart\<close>. The result is the \<open>RestartLog\<close> row as stored afterwards, the effects,
  and the rejection of the returned promise, if any. A rejected final update is caught by
  the outer \<open>catch\<close>, whose own update is awaited outside any \<open>try\<close>.
\<close>

record restart_outcome =
  out_log :: restart_log
  out_effects :: "effect list"
  out_rejected :: "string option"

definition executeRestart ::
  "bool \<Rightarrow> restart_env \<Rightarrow> server list \<Rightarrow> restart_log \<Rightarrow> restart_outcome" where
  "executeRestart io env servers log =
     (case runHosts io env servers log of (d, tr) \<Rightarrow>
        let st = (if length (d_errors d) = 0 then Completed else Failed) in
        (case finalWrite env of
          None \<Rightarrow>
            \<lparr>out_log = log\<lparr>log_status := st, log_details := Some (HostDetails d),
                            endTime := Some (finalClock env)\<rparr>,
             out_effects = tr @ emitIf io
               \<lparr>rs_logId = log_id log, rs_serverId = None, rs_status = statusText st,
                rs_message = ''Restart process '' @ statusText st @ ''. ''
                  @ digits (length (d_servers d)) @ '' successful, ''
                  @ digits (length (d_errors d)) @ '' failed.'',
                rs_details = Some d\<rparr>,
             out_rejected = None\<rparr>
        | Some m \<Rightarrow>
            (case handlerWrite env of
               None \<Rightarrow>
                 \<lparr>out_log = log\<lparr>log_status := Failed, log_details := Some (ErrorDetail m),
                                 endTime := Some (handlerClock env)\<rparr>,
                  out_effects = tr @ emitIf io
                    \<lparr>rs_logId = log_id log, rs_serverId = None, rs_status = ''failed'',
                     rs_message = ''Restart process failed: '' @ m, rs_details = None\<rparr>,
                  out_rejected = None\<rparr>
             | Some m' \<Rightarrow>
                 \<lparr>out_log = log, out_effects = tr, out_rejected = Some m'\<rparr>)))"

subsection \<open>Reading the effects\<close>

fun pingedHost :: "effect \<Rightarrow> server list" where
  "pingedHost (PingCall s) = [s]"
| "pingedHost e = []"

definition attempted :: "effect list \<Rightarrow> server list" where
  "attempted tr = concat (map pingedHost tr)"

fun isCall :: "effect \<Rightarrow> bool" where
  "isCall (PingCall s) = True"
| "isCall (RebootCall s) = True"
| "isCall e = False"

definition calls :: "effect list \<Rightarrow> effect list" where
  "calls tr = filter isCall tr"

fun isPace :: "effect \<Rightarrow> bool" where
  "isPace (PingCall s) = True"
| "isPace (RebootCall s) = True"
| "isPace (Sleep n) = True"
| "isPace e = False"

definition pacing :: "effect list \<Rightarrow> effect list" where
  "pacing tr = filter isPace tr"

text \<open>The per-host entries a \<open>RestartLog\<close> row holds in its \<open>details\<close> column.\<close>

definition storedErrors :: "restart_log \<Rightarrow> error_entry list" where
  "storedErrors log =
     (case log_details log of Some (HostDetails d) \<Rightarrow> d_errors d | _ \<Rightarrow> [])"

definition storedSuccesses :: "restart_log \<Rightarrow> success_entry list" where
  "storedSuccesses log =
     (case log_details log of Some (HostDetails d) \<Rightarrow> d_servers d | _ \<Rightarrow> [])"

text \<open>The error a host's restart ends with, if any: the message the inner \<open>catch\<close> sees.\<close>

definition hostFailure :: "restart_env \<Rightarrow> server \<Rightarrow> string option" where
  "hostFailure env s =
     (if \<not> restart_pingServer (pingOf env s)
      then Some (''Server '' @ ipAddress s @ '' is not reachable via ping'')
      else (case executeSSHReboot (sshOf env s) of Inl m \<Rightarrow> Some m | Inr ok \<Rightarrow> None))"

text \<open>
  The effects, the error entry and the success entry one host contributes to a batch.
\<close>

definition hostEffects :: "bool \<Rightarrow> restart_env \<Rightarrow> nat \<Rightarrow> server \<Rightarrow> effect list" where
  "hostEffects io env logId s =
     snd (restartServer io env logId s (\<lparr>d_servers = [], d_errors = []\<rparr>, []))"

definition hostErrors :: "restart_env \<Rightarrow> server \<Rightarrow> error_entry list" where
  "hostErrors env s =
     (case hostFailure env s of
        None \<Rightarrow> []
      | Some m \<Rightarrow> [\<lparr>ee_serverId = server_id s, ee_serverName = name s, ee_error = m\<rparr>])"

definition hostSuccesses :: "restart_env \<Rightarrow> server \<Rightarrow> success_entry list" where
  "hostSuccesses env s =
     (case hostFailure env s of
        None \<Rightarrow> [\<lparr>se_id = server_id s, se_name = name s, se_hostname = hostname s,
                  se_status = ''success'', se_timestamp = stampOf env s\<rparr>]
      | Some m \<Rightarrow> [])"

section \<open>The monitoring service\<close>

text \<open>
  The monitoring service's \<open>pingServer\<close> (10 s timer; output is collected or logged) and
  \<open>telnetServer\<close>, which resolves on the first of \<open>connect\<close>, \<open>error\<close> and its 5 s timer.
  Neither promise ever rejects.
\<close>

datatype sock_event = Connected | SockError string | SockTimerFired

fun pingServer :: "proc_event list \<Rightarrow> bool" where
  "pingServer [] = False"
| "pingServer (Stdout d # es) = pingServer es"
| "pingServer (Stderr d # es) = pingServer es"
| "pingServer (Close code # es) = (code = Some 0)"
| "pingServer (ProcError m # es) = False"
| "pingServer (TimerFired # es) = False"

fun telnetServer :: "sock_event list \<Rightarrow> bool" where
  "telnetServer [] = False"
| "telnetServer (SockTimerFired # es) = False"
| "telnetServer (Connected # es) = True"
| "telnetServer (SockError m # es) = False"

text \<open>A \<open>MonitorLog\<close> row and a \<open>server-status\<close> message.\<close>

record monitor_log =
  ml_serverId :: nat
  ml_pingStatus :: bool
  ml_telnetStatus :: bool
  ml_responseTime :: int
  ml_errorMessage :: "string option"

record server_status =
  ss_serverId :: nat
  ss_status :: host_status
  ss_pingStatus :: bool
  ss_telnetStatus :: bool
  ss_responseTime :: int
  ss_timestamp :: int

text \<open>
  What the sweep-level \<open>catch\<close> can receive: a rejected \<open>Server.findAll\<close>,
  \<open>server.update\<close>, \<open>MonitorLog.create\<close> or \<open>sendAlertEmail\<close> (with the host's id).
\<close>

datatype monitor_error = FindAllError | UpdateError nat | CreateError nat | AlertError nat

text \<open>
  The environment of one host in one sweep: the events of its two probes, the clock
  readings (\<open>Date.now()\<close> before and after the probes, \<open>new Date()\<close> for the two
  timestamps and for the emitted message), and whether the awaited calls reject.
  \<open>sendAlertEmail\<close> is not part of these sources; whether it can reject is a parameter.
\<close>

record probe_env =
  pingEvents :: "proc_event list"
  telnetEvents :: "sock_event list"
  probeStart :: int
  probeEnd :: int
  pingClock :: int
  telnetClock :: int
  emitClock :: int
  updateRejects :: bool
  createRejects :: bool
  alertRejects :: bool

record sweep_env =
  findAllRejects :: bool
  hostEnv :: "nat \<Rightarrow> probe_env"

text \<open>
  Everything a sweep writes besides the \<open>Server\<close> rows: observations, alert
  dispatches (the calls of \<open>sendAlertEmail\<close>), emitted messages and logged errors.
\<close>

record journal =
  monitorLogs :: "monitor_log list"
  alerts :: "(server \<times> string) list"
  statusEvents :: "server_status list"
  errorLog :: "monitor_error list"

record world =
  table :: "server list"
  journal :: journal

definition okFail :: "bool \<Rightarrow> string" where
  "okFail b = (if b then ''OK'' else ''FAIL'')"

text \<open>
  The body of the sweep's \<open>for\<close> loop for one host. \<open>server.update\<close> writes exactly the
  three named columns of that row. The third component is the error that leaves the body.
\<close>

definition monitorServer ::
  "bool \<Rightarrow> probe_env \<Rightarrow> server \<Rightarrow> journal \<Rightarrow> server \<times> journal \<times> monitor_error option" where
  "monitorServer io e s j =
     (let pingResult = pingServer (pingEvents e);
          telnetResult = telnetServer (telnetEvents e);
          responseTime = probeEnd e - probeStart e;
          isOnline = (pingResult \<and> telnetResult);
          previousStatus = status s;
          newStatus = (if isOnline then Online else Offline)
      in
        if updateRejects e then (s, j, Some (UpdateError (server_id s)))
        else
          let s' = s\<lparr>status := newStatus,
                     lastPing := (if pingResult then Some (pingClock e) else lastPing s),
                     lastTelnet := (if telnetResult then Some (telnetClock e) else lastTelnet s)\<rparr>
          in
            if createRejects e then (s', j, Some (CreateError (server_id s)))
            else
              let j1 = j\<lparr>monitorLogs := monitorLogs j @
                         [\<lparr>ml_serverId = server_id s, ml_pingStatus = pingResult,
                           ml_telnetStatus = telnetResult, ml_responseTime = responseTime,
                           ml_errorMessage =
                             (if \<not> isOnline
                              then Some (''Ping: '' @ okFail pingResult @ '', Telnet: ''
                                         @ okFail telnetResult)
                              else None)\<rparr>]\<rparr>;
                  alert = (previousStatus = Online \<and> newStatus = Offline);
                  j2 = (if alert
                        then j1\<lparr>alerts := alerts j1 @ [(s', ''Server is offline'')]\<rparr>
                        else j1)
              in
                if alert \<and> alertRejects e then (s', j2, Some (AlertError (server_id s)))
                else
                  (s',
                   (if io
                    then j2\<lparr>statusEvents := statusEvents j2 @
                           [\<lparr>ss_serverId = server_id s, ss_status = newStatus,
                             ss_pingStatus = pingResult, ss_telnetStatus = telnetResult,
                             ss_responseTime = responseTime, ss_timestamp = emitClock e\<rparr>]\<rparr>
                    else j2),
                   None))"

text \<open>
  The loop over the rows returned by \<open>Server.findAll({ where: { isActive: true } })\<close>.
  The instances are the rows of the table, so the model walks the table, passes over the
  inactive rows, and stops at the first error, leaving the remaining rows as they are.
\<close>

fun monitorLoop ::
  "bool \<Rightarrow> (nat \<Rightarrow> probe_env) \<Rightarrow> server list \<Rightarrow> journal
     \<Rightarrow> server list \<times> journal \<times> monitor_error option" where
  "monitorLoop io env [] j = ([], j, None)"
| "monitorLoop io env (s # ss) j =
     (if \<not> isActive s then
        (case monitorLoop io env ss j of (ss', j', r) \<Rightarrow> (s # ss', j', r))
      else
        (case monitorServer io (env (server_id s)) s j of
           (s', j', Some err) \<Rightarrow> (s' # ss, j', Some err)
         | (s', j', None) \<Rightarrow>
             (case monitorLoop io env ss j' of (ss', j'', r) \<Rightarrow> (s' # ss', j'', r))))"

text \<open>
  \<open>monitorAllServers\<close>: one \<open>try\<close> around the query and the whole loop; the \<open>catch\<close>
  logs the error. The function returns normally in every case.
\<close>

definition monitorAllServers :: "bool \<Rightarrow> sweep_env \<Rightarrow> world \<Rightarrow> world" where
  "monitorAllServers io env w =
     (if findAllRejects env
      then w\<lparr>journal := (journal w)\<lparr>errorLog := errorLog (journal w) @ [FindAllError]\<rparr>\<rparr>
      else
        (case monitorLoop io (hostEnv env) (table w) (journal w) of
           (ss, j, None) \<Rightarrow> \<lparr>table = ss, journal = j\<rparr>
         | (ss, j, Some err) \<Rightarrow>
             \<lparr>table = ss, journal = j\<lparr>errorLog := errorLog j @ [err]\<rparr>\<rparr>))"

text \<open>
  Sweeps run one after the other, each finished before the next one starts. This is the
  reference for sweeps that do not overlap; what \<open>startMonitoring\<close> does is \<open>runTicks\<close> below.
\<close>

fun sweeps :: "bool \<Rightarrow> sweep_env list \<Rightarrow> world \<Rightarrow> world" where
  "sweeps io [] w = w"
| "sweeps io (e # es) w = sweeps io es (monitorAllServers io e w)"

subsection \<open>Sweeps started by the interval\<close>

text \<open>
  \<open>startMonitoring\<close> calls \<open>monitorAllServers\<close> at once and then every 60 s, without waiting
  for the sweep before: several sweeps can be at work at the same time. Each sweep works
  on the instances its own \<open>findAll\<close> returned, so the status, \<open>lastPing\<close> and \<open>lastTelnet\<close>
  it compares with and falls back on are those of the time of its query, while its update
  writes the three columns into the row as it is then.

  A running sweep is the hosts it has still to process: the instances of its query, each
  with the position of its row. A tick either begins a sweep (the query) or lets one
  running sweep process its next host. A host's step is taken as a whole.
\<close>

fun snapshotFrom :: "nat \<Rightarrow> server list \<Rightarrow> (nat \<times> server) list" where
  "snapshotFrom i [] = []"
| "snapshotFrom i (s # ss) = (if isActive s then [(i, s)] else []) @ snapshotFrom (Suc i) ss"

record sweep_run =
  runEnv :: "nat \<Rightarrow> probe_env"
  pending :: "(nat \<times> server) list"

record monitor_state =
  db :: world
  runs :: "sweep_run list"

datatype tick = Begin sweep_env | Advance nat

definition writeRow :: "probe_env \<Rightarrow> nat \<Rightarrow> server \<Rightarrow> server list \<Rightarrow> server list" where
  "writeRow e i s' tbl =
     (if updateRejects e then tbl
      else tbl[i := (tbl ! i)\<lparr>status := status s', lastPing := lastPing s',
                               lastTelnet := lastTelnet s'\<rparr>])"

definition beginSweep :: "sweep_env \<Rightarrow> monitor_state \<Rightarrow> monitor_state" where
  "beginSweep env st =
     (if findAllRejects env
      then \<lparr>db = (db st)\<lparr>journal :=
                   (journal (db st))\<lparr>errorLog := errorLog (journal (db st)) @ [FindAllError]\<rparr>\<rparr>,
            runs = runs st @ [\<lparr>runEnv = hostEnv env, pending = []\<rparr>]\<rparr>
      else \<lparr>db = db st,
            runs = runs st
              @ [\<lparr>runEnv = hostEnv env, pending = snapshotFrom 0 (table (db st))\<rparr>]\<rparr>)"

definition advanceSweep :: "bool \<Rightarrow> nat \<Rightarrow> monitor_state \<Rightarrow> monitor_state" where
  "advanceSweep io k st =
     (if k < length (runs st) then
        (case pending (runs st ! k) of
           [] \<Rightarrow> st
         | (i, s) # rest \<Rightarrow>
             (case monitorServer io (runEnv (runs st ! k) (server_id s)) s (journal (db st)) of
                (s', j', None) \<Rightarrow>
                  \<lparr>db = \<lparr>table = writeRow (runEnv (runs st ! k) (server_id s)) i s'
                                   (table (db st)),
                          journal = j'\<rparr>,
                   runs = (runs st)[k := \<lparr>runEnv = runEnv (runs st ! k), pending = rest\<rparr>]\<rparr>
              | (s', j', Some err) \<Rightarrow>
                  \<lparr>db = \<lparr>table = writeRow (runEnv (runs st ! k) (server_id s)) i s'
                                   (table (db st)),
                          journal = j'\<lparr>errorLog := errorLog j' @ [err]\<rparr>\<rparr>,
                   runs = (runs st)[k := \<lparr>runEnv = runEnv (runs st ! k), pending = []\<rparr>]\<rparr>))
      else st)"

fun tickStep :: "bool \<Rightarrow> tick \<Rightarrow> monitor_state \<Rightarrow> monitor_state" where
  "tickStep io (Begin env) st = beginSweep env st"
| "tickStep io (Advance k) st = advanceSweep io k st"

fun runTicks :: "bool \<Rightarrow> tick list \<Rightarrow> monitor_state \<Rightarrow> monitor_state" where
  "runTicks io [] st = st"
| "runTicks io (t # ts) st = runTicks io ts (tickStep io t st)"

text \<open>
  The ticks of sweeps that do not overlap: each sweep begins and processes all its hosts
  (\<open>n\<close> steps are enough for a table of \<open>n\<close> rows) before the next one begins; \<open>k\<close> is the
  number of sweeps begun before.
\<close>

fun inTurn :: "nat \<Rightarrow> nat \<Rightarrow> sweep_env list \<Rightarrow> tick list" where
  "inTurn n k [] = []"
| "inTurn n k (e # es) = Begin e # replicate n (Advance k) @ inTurn n (Suc k) es"


subsection \<open>Reading a sweep\<close>

text \<open>
  Vocabulary for the statements below: the status the probes of a host give, the row
  after an accepted update, the first rejection in a host's step, the observation written
  for a host, and the table after a sweep in which every host is probed and updated.
\<close>

definition probeStatus :: "probe_env \<Rightarrow> host_status" where
  "probeStatus e = (if pingServer (pingEvents e) \<and> telnetServer (telnetEvents e) then Online else Offline)"

definition updated :: "probe_env \<Rightarrow> server \<Rightarrow> server" where
  "updated e s =
     s\<lparr>status := probeStatus e,
       lastPing := (if pingServer (pingEvents e) then Some (pingClock e) else lastPing s),
       lastTelnet := (if telnetServer (telnetEvents e) then Some (telnetClock e) else lastTelnet s)\<rparr>"

definition rejection :: "probe_env \<Rightarrow> server \<Rightarrow> monitor_error option" where
  "rejection e s =
     (if updateRejects e then Some (UpdateError (server_id s))
      else if createRejects e then Some (CreateError (server_id s))
      else if status s = Online \<and> probeStatus e = Offline \<and> alertRejects e
      then Some (AlertError (server_id s))
      else None)"

text \<open>
  The rows that went from \<open>online\<close> to \<open>offline\<close> between two states of the table and
  whose observation write was accepted, and their collection over consecutive sweeps.
\<close>

definition alertedRows :: "(nat \<Rightarrow> probe_env) \<Rightarrow> server list \<Rightarrow> server list \<Rightarrow> server list" where
  "alertedRows env before after =
     map snd (filter (\<lambda>(s, s'). status s = Online \<and> status s' = Offline
                          \<and> \<not> createRejects (env (server_id s)))
                (zip before after))"

fun alertedTransitions :: "bool \<Rightarrow> sweep_env list \<Rightarrow> world \<Rightarrow> server list" where
  "alertedTransitions io [] w = []"
| "alertedTransitions io (e # es) w =
     alertedRows (hostEnv e) (table w) (table (monitorAllServers io e w))
       @ alertedTransitions io es (monitorAllServers io e w)"

definition observation :: "probe_env \<Rightarrow> server \<Rightarrow> monitor_log" where
  "observation e s =
     \<lparr>ml_serverId = server_id s, ml_pingStatus = pingServer (pingEvents e),
      ml_telnetStatus = telnetServer (telnetEvents e),
      ml_responseTime = probeEnd e - probeStart e,
      ml_errorMessage =
        (if probeStatus e = Offline
         then Some (''Ping: '' @ okFail (pingServer (pingEvents e)) @ '', Telnet: ''
                    @ okFail (telnetServer (telnetEvents e)))
         else None)\<rparr>"

definition probeAll :: "(nat \<Rightarrow> probe_env) \<Rightarrow> server list \<Rightarrow> server list" where
  "probeAll env ss = map (\<lambda>s. if isActive s then updated (env (server_id s)) s else s) ss"

section \<open>The scheduler form\<close>

text \<open>
  Instants are milliseconds since the epoch. A wall-clock time is the number of
  milliseconds its calendar fields would make as a UTC time. The browser's time zone is
  given by its two conversions: \<open>toLocal\<close> gives the wall-clock time of an instant, and
  \<open>fromLocal\<close> gives the instant the \<open>Date\<close> object settles on for a wall-clock time (which
  may fall in a clock change). A zone with a fixed offset of \<open>tz\<close> minutes from UTC adds
  and subtracts that offset.
\<close>

record zone =
  toLocal :: "int \<Rightarrow> int"
  fromLocal :: "int \<Rightarrow> int"

definition fixedOffset :: "int \<Rightarrow> zone" where
  "fixedOffset tz = \<lparr>toLocal = (\<lambda>t. t + tz * 60000), fromLocal = (\<lambda>l. l - tz * 60000)\<rparr>"

text \<open>
  The form state of \<open>Scheduler.tsx\<close>. The value of the \<open>datetime-local\<close> input is a
  wall-clock time to the minute, or empty: it is modelled by its count of minutes
  (\<open>None\<close> for the empty string). An e-mail entry is a JavaScript string, a list of UTF-16
  code units.
\<close>

type_synonym jsstring = "nat list"

record form_data =
  taskName :: string
  serverIds :: "nat list"
  scheduledTime :: "int option"
  emailNotification :: bool
  notificationEmails :: "jsstring list"

text \<open>
  \<open>String.prototype.trim\<close> removes the white space and line terminators of the language
  from both ends: U+0009 to U+000D, U+0020, U+00A0, U+1680, U+2000 to U+200A, U+2028,
  U+2029, U+202F, U+205F, U+3000 and U+FEFF.
\<close>

definition isSpace :: "nat \<Rightarrow> bool" where
  "isSpace c =
     ((9 \<le> c \<and> c \<le> 13) \<or> c = 32 \<or> c = 160 \<or> c = 5760 \<or> (8192 \<le> c \<and> c \<le> 8202)
      \<or> c = 8232 \<or> c = 8233 \<or> c = 8239 \<or> c = 8287 \<or> c = 12288 \<or> c = 65279)"

definition trim :: "jsstring \<Rightarrow> jsstring" where
  "trim x = rev (dropWhile isSpace (rev (dropWhile isSpace x)))"

text \<open>
  \<open>handleSubmit\<close> either shows an error toast and returns, or sends the creation request
  to \<open>schedulerAPI.createTask\<close>. \<open>new Date(value)\<close> reads the value as local time; a
  comparison with an invalid date is false.
\<close>

datatype submit_outcome = Toast string | CreateTask form_data

definition handleSubmit :: "zone \<Rightarrow> int \<Rightarrow> form_data \<Rightarrow> submit_outcome" where
  "handleSubmit z now fd =
     (if length (serverIds fd) = 0 then Toast ''Please select at least one server''
      else if (case scheduledTime fd of None \<Rightarrow> False
               | Some v \<Rightarrow> fromLocal z (v * 60000) \<le> now)
      then Toast ''Scheduled time must be in the future''
      else CreateTask
        (fd\<lparr>notificationEmails :=
              (if emailNotification fd
               then filter (\<lambda>email. trim email \<noteq> []) (notificationEmails fd)
               else [])\<rparr>))"

text \<open>
  \<open>getMinDateTime\<close>: \<open>setHours(getHours() + 1)\<close> adds one hour to the local wall-clock
  time and settles on an instant for it; \<open>toISOString().slice(0, 16)\<close> prints that instant
  as UTC wall-clock time cut to the minute. The result is the count of minutes of that
  print.
\<close>

definition getMinDateTime :: "zone \<Rightarrow> int \<Rightarrow> int" where
  "getMinDateTime z now = fromLocal z (toLocal z now + 3600000) div 60000"

text \<open>
  The browser submits the form, and so calls \<open>handleSubmit\<close>, only when the rendered
  inputs are valid: the task name and the time are \<open>required\<close>; the time is not before
  its \<open>min\<close> attribute, which was computed when the form was last rendered and is
  compared with the value as wall-clock times; and, when the notification box is ticked,
  every e-mail input is empty or holds what the browser takes for an e-mail address
  (\<open>validEmail\<close>, the browser's own check).
\<close>

definition constraintsHold :: "(jsstring \<Rightarrow> bool) \<Rightarrow> int \<Rightarrow> form_data \<Rightarrow> bool" where
  "constraintsHold validEmail minAttr fd =
     (taskName fd \<noteq> []
      \<and> (case scheduledTime fd of None \<Rightarrow> False | Some v \<Rightarrow> minAttr \<le> v)
      \<and> (if emailNotification fd
          then list_all (\<lambda>email. email = [] \<or> validEmail email) (notificationEmails fd)
          else True))"

definition submitForm ::
  "(jsstring \<Rightarrow> bool) \<Rightarrow> zone \<Rightarrow> int \<Rightarrow> int \<Rightarrow> form_data \<Rightarrow> submit_outcome option" where
  "submitForm validEmail z renderedAt now fd =
     (if constraintsHold validEmail (getMinDateTime z renderedAt) fd
      then Some (handleSubmit z now fd)
      else None)"

section \<open>Example fleet\<close>

text \<open>Three hosts, two of them with the same restart order, and a running batch.\<close>

definition frontHost :: server where
  "frontHost = \<lparr>server_id = 1, name = ''front'', hostname = ''front.lan'',
     ipAddress = ''192.168.1.10'', port = 80, restartOrder = 2, restartDelay = 0,
     isActive = True, status = Online, lastPing = None, lastTelnet = None\<rparr>"

definition backHost :: server where
  "backHost = \<lparr>server_id = 2, name = ''back'', hostname = ''back.lan'',
     ipAddress = ''192.168.1.15'', port = 7001, restartOrder = 1, restartDelay = 30,
     isActive = True, status = Online, lastPing = None, lastTelnet = None\<rparr>"

definition dbHost :: server where
  "dbHost = \<lparr>server_id = 3, name = ''db'', hostname = ''db.lan'',
     ipAddress = ''192.168.1.20'', port = 5432, restartOrder = 2, restartDelay = 0,
     isActive = True, status = Unknown, lastPing = None, lastTelnet = None\<rparr>"

text \<open>A host whose pause, in milliseconds, does not fit the timer.\<close>

definition archiveHost :: server where
  "archiveHost = \<lparr>server_id = 4, name = ''archive'', hostname = ''archive.lan'',
     ipAddress = ''192.168.1.30'', port = 22, restartOrder = 0, restartDelay = 2147484,
     isActive = True, status = Online, lastPing = None, lastTelnet = None\<rparr>"

definition batchLog :: restart_log where
  "batchLog = \<lparr>log_id = 7, log_status = Running, log_details = None, endTime = None\<rparr>"

text \<open>Every host answers the ping and drops the ssh session; the store accepts writes.\<close>

definition envAllUp :: restart_env where
  "envAllUp = \<lparr>pingOf = (\<lambda>s. [Close (Some 0)]), sshOf = (\<lambda>s. [Close None]),
     stampOf = (\<lambda>s. 1000), finalWrite = None, finalClock = 2000,
     handlerWrite = None, handlerClock = 3000\<rparr>"

text \<open>The host with id 2 does not answer the ping (exit code 1); the others do.\<close>

definition envBackDown :: restart_env where
  "envBackDown = \<lparr>pingOf = (\<lambda>s. if server_id s = 2 then [Close (Some 1)] else [Close (Some 0)]),
     sshOf = (\<lambda>s. [Close None]),
     stampOf = (\<lambda>s. 1000), finalWrite = None, finalClock = 2000,
     handlerWrite = None, handlerClock = 3000\<rparr>"

text \<open>The store rejects both updates of the \<open>RestartLog\<close> row.\<close>

definition envStoreDown :: restart_env where
  "envStoreDown = \<lparr>pingOf = (\<lambda>s. [Close (Some 0)]), sshOf = (\<lambda>s. [Close None]),
     stampOf = (\<lambda>s. 1000), finalWrite = Some ''connection lost'', finalClock = 2000,
     handlerWrite = Some ''connection lost'', handlerClock = 3000\<rparr>"

text \<open>The store rejects the final update and accepts the one in the handler.\<close>

definition envFinalWriteFails :: restart_env where
  "envFinalWriteFails = \<lparr>pingOf = (\<lambda>s. [Close (Some 0)]), sshOf = (\<lambda>s. [Close None]),
     stampOf = (\<lambda>s. 1000), finalWrite = Some ''deadlock'', finalClock = 2000,
     handlerWrite = None, handlerClock = 3000\<rparr>"

text \<open>
  The host with id 2 does not answer the ping; the store rejects the final update and
  accepts the one in the handler.
\<close>

definition envBackDownWriteRejected :: restart_env where
  "envBackDownWriteRejected =
     \<lparr>pingOf = (\<lambda>s. if server_id s = 2 then [Close (Some 1)] else [Close (Some 0)]),
      sshOf = (\<lambda>s. [Close None]),
      stampOf = (\<lambda>s. 1000), finalWrite = Some ''deadlock'', finalClock = 2000,
      handlerWrite = None, handlerClock = 3000\<rparr>"

text \<open>
  The ssh session of the host with id 2 stays silent until the timer fires; the store
  rejects both updates.
\<close>

definition envBackHangsStoreDown :: restart_env where
  "envBackHangsStoreDown =
     \<lparr>pingOf = (\<lambda>s. [Close (Some 0)]),
      sshOf = (\<lambda>s. if server_id s = 2 then [TimerFired, Close None] else [Close None]),
      stampOf = (\<lambda>s. 1000), finalWrite = Some ''connection lost'', finalClock = 2000,
      handlerWrite = Some ''connection lost'', handlerClock = 3000\<rparr>"

text \<open>Probe environments: a host that answers both probes, and one that answers neither.\<close>

definition probeUp :: probe_env where
  "probeUp = \<lparr>pingEvents = [Stdout ''64 bytes'', Close (Some 0)], telnetEvents = [Connected],
     probeStart = 1000, probeEnd = 1040, pingClock = 1041, telnetClock = 1042,
     emitClock = 1050, updateRejects = False, createRejects = False, alertRejects = False\<rparr>"

definition probeDown :: probe_env where
  "probeDown = \<lparr>pingEvents = [Close (Some 1)], telnetEvents = [SockError ''ECONNREFUSED''],
     probeStart = 1000, probeEnd = 1040, pingClock = 1041, telnetClock = 1042,
     emitClock = 1050, updateRejects = False, createRejects = False, alertRejects = False\<rparr>"

definition sweepAllUp :: sweep_env where
  "sweepAllUp = \<lparr>findAllRejects = False, hostEnv = (\<lambda>i. probeUp)\<rparr>"

definition sweepAllDown :: sweep_env where
  "sweepAllDown = \<lparr>findAllRejects = False, hostEnv = (\<lambda>i. probeDown)\<rparr>"

definition sweepFrontDown :: sweep_env where
  "sweepFrontDown =
     \<lparr>findAllRejects = False, hostEnv = (\<lambda>i. if i = 1 then probeDown else probeUp)\<rparr>"

text \<open>The host with id 1 is down and the write of its observation is rejected.\<close>

definition sweepFrontDownLogRejected :: sweep_env where
  "sweepFrontDownLogRejected =
     \<lparr>findAllRejects = False,
      hostEnv = (\<lambda>i. if i = 1 then probeDown\<lparr>createRejects := True\<rparr> else probeUp)\<rparr>"

text \<open>Every host is up; the status update of the host with id 1 is rejected.\<close>

definition sweepFrontUpdateRejected :: sweep_env where
  "sweepFrontUpdateRejected =
     \<lparr>findAllRejects = False,
      hostEnv = (\<lambda>i. if i = 1 then probeUp\<lparr>updateRejects := True\<rparr> else probeUp)\<rparr>"

definition emptyJournal :: journal where
  "emptyJournal = \<lparr>monitorLogs = [], alerts = [], statusEvents = [], errorLog = []\<rparr>"

definition fleet :: world where
  "fleet = \<lparr>table = [frontHost, dbHost], journal = emptyJournal\<rparr>"

text \<open>Two hosts that are both \<open>online\<close>.\<close>

definition fleetOnline :: world where
  "fleetOnline = \<lparr>table = [frontHost, backHost], journal = emptyJournal\<rparr>"

text \<open>
  A creation request for one host, with a scheduled time of 09:30 local wall-clock time on
  the day whose 08:00 UTC is the instant \<open>1800000000000\<close>, entered in a browser one hour
  ahead of UTC: the instant it names is half an hour after 08:00 UTC.
\<close>

definition halfHourAhead :: form_data where
  "halfHourAhead = \<lparr>taskName = ''weekly'', serverIds = [1], scheduledTime = Some 30000090,
     emailNotification = False, notificationEmails = [[]]\<rparr>"

section \<open>The reboot session\<close>

lemma sshSession_output:
  "list_all isOutput pre \<Longrightarrow> sshSession err (pre @ e # post) = sshSession (err @ stderrOf pre) (e # post)"
proof (induction pre arbitrary: err)
  case Nil
  then show ?case by (simp add: stderrOf_def)
next
  case (Cons a pre)
  then show ?case by (cases a) (simp_all add: stderrOf_def)
qed

text \<open>
  Claim C6. In every reboot session, whatever output precedes it and whatever follows:
  a \<open>close\<close> with exit code \<open>null\<close> or \<open>255\<close> resolves (success); the timer firing first
  rejects with the timeout message, also when the kill is followed by a \<open>close\<close> with
  code \<open>null\<close>; a \<open>close\<close> with any other non-zero code rejects, and the rejection carries
  the collected \<open>stderr\<close> (the exit-code message when nothing was collected).
\<close>

theorem executeSSHReboot_outcomes:
  assumes "list_all isOutput pre"
  shows "executeSSHReboot (pre @ Close None # post) = Inr True
    \<and> executeSSHReboot (pre @ Close (Some 255) # post) = Inr True
    \<and> executeSSHReboot (pre @ TimerFired # post) = Inl ''SSH command timeout''
    \<and> (c \<noteq> 0 \<and> c \<noteq> 255 \<longrightarrow>
         executeSSHReboot (pre @ Close (Some c) # post) =
           Inl (if stderrOf pre \<noteq> [] then stderrOf pre
                else ''SSH command failed with exit code '' @ show_int c))"
  using assms by (simp add: executeSSHReboot_def sshSession_output)

theorem executeSSHReboot_outcomes_witness:
  "list_all isOutput [Stdout ''a'', Stderr ''Permission denied'']
   \<and> executeSSHReboot ([Stdout ''a'', Stderr ''Permission denied''] @ Close None # [])
       = Inr True
   \<and> executeSSHReboot ([Stdout ''a'', Stderr ''Permission denied''] @ Close (Some 255) # [])
       = Inr True
   \<and> executeSSHReboot ([Stdout ''a'', Stderr ''Permission denied''] @ TimerFired # [Close None])
       = Inl ''SSH command timeout''
   \<and> executeSSHReboot ([Stdout ''a'', Stderr ''Permission denied''] @ Close (Some 1) # [])
       = Inl ''Permission denied''"
proof -
  have h: "list_all isOutput [Stdout ''a'', Stderr ''Permission denied'']" by simp
  show ?thesis
    using h executeSSHReboot_outcomes [OF h, of "[Close None]" 1]
    by (simp add: executeSSHReboot_def stderrOf_def)
qed

section \<open>The restart loop\<close>

lemma restartServer_snd:
  "snd (restartServer io env l s (d, tr)) = tr @ hostEffects io env l s"
  by (simp add: restartServer_def hostEffects_def recordFailure_def split: sum.splits)

lemma restartServer_fst:
  "fst (restartServer io env l s (d, tr)) =
     d\<lparr>d_servers := d_servers d @ hostSuccesses env s,
       d_errors := d_errors d @ hostErrors env s\<rparr>"
  by (simp add: restartServer_def hostErrors_def hostSuccesses_def hostFailure_def
      recordFailure_def split: sum.splits)

lemma restartLoop_eq:
  "restartLoop io env l ss (d, tr) =
     (d\<lparr>d_servers := d_servers d @ concat (map (hostSuccesses env) ss),
        d_errors := d_errors d @ concat (map (hostErrors env) ss)\<rparr>,
      tr @ concat (map (hostEffects io env l) ss))"
proof (induction ss arbitrary: d tr)
  case Nil
  then show ?case by simp
next
  case (Cons s ss)
  have "restartServer io env l s (d, tr) =
          (fst (restartServer io env l s (d, tr)), snd (restartServer io env l s (d, tr)))"
    by simp
  then show ?case
    by (simp only: restartLoop.simps Cons.IH restartServer_snd restartServer_fst) simp
qed

lemma calls_hostEffects:
  "calls (hostEffects io env l s) =
     PingCall s # (if restart_pingServer (pingOf env s) then [RebootCall s] else [])"
  by (simp add: hostEffects_def restartServer_def recordFailure_def calls_def emitIf_def
      split: sum.splits)

lemma attempted_hostEffects: "attempted (hostEffects io env l s) = [s]"
  by (simp add: hostEffects_def restartServer_def recordFailure_def attempted_def emitIf_def
      split: sum.splits)

lemma pacing_hostEffects:
  "pacing (hostEffects io env l s) =
     PingCall s #
       (if restart_pingServer (pingOf env s)
        then RebootCall s #
               (if hostFailure env s = None \<and> restartDelay s > 0
                then [Sleep (timerDelay (restartDelay s * 1000))] else [])
        else [])"
  by (simp add: hostEffects_def restartServer_def recordFailure_def pacing_def emitIf_def
      hostFailure_def split: sum.splits)

lemma calls_append: "calls (xs @ ys) = calls xs @ calls ys"
  by (simp add: calls_def)

lemma attempted_append: "attempted (xs @ ys) = attempted xs @ attempted ys"
  by (simp add: attempted_def)

lemma pacing_append: "pacing (xs @ ys) = pacing xs @ pacing ys"
  by (simp add: pacing_def)

lemma calls_concat: "calls (concat xss) = concat (map calls xss)"
  by (induction xss) (simp_all add: calls_append, simp add: calls_def)

lemma attempted_concat: "attempted (concat xss) = concat (map attempted xss)"
  by (induction xss) (simp_all add: attempted_append, simp add: attempted_def)

lemma pacing_concat: "pacing (concat xss) = concat (map pacing xss)"
  by (induction xss) (simp_all add: pacing_append, simp add: pacing_def)

lemma calls_emitIf: "calls (emitIf io m) = []"
  by (simp add: calls_def emitIf_def)

lemma attempted_emitIf: "attempted (emitIf io m) = []"
  by (simp add: attempted_def emitIf_def)

lemma pacing_emitIf: "pacing (emitIf io m) = []"
  by (simp add: pacing_def emitIf_def)

lemma runHosts_eq:
  "runHosts io env servers log =
     (\<lparr>d_servers = concat (map (hostSuccesses env) (sortServers servers)),
       d_errors = concat (map (hostErrors env) (sortServers servers))\<rparr>,
      emitIf io \<lparr>rs_logId = log_id log, rs_serverId = None, rs_status = ''started'',
                 rs_message = ''Restart process initiated'', rs_details = None\<rparr>
        @ concat (map (hostEffects io env (log_id log)) (sortServers servers)))"
  by (simp add: runHosts_def restartLoop_eq)

lemma calls_out_effects:
  "calls (out_effects (executeRestart io env servers log)) = calls (snd (runHosts io env servers log))"
  by (simp add: executeRestart_def Let_def calls_append calls_emitIf
      split: prod.splits option.splits)

lemma attempted_out_effects:
  "attempted (out_effects (executeRestart io env servers log)) =
     attempted (snd (runHosts io env servers log))"
  by (simp add: executeRestart_def Let_def attempted_append attempted_emitIf
      split: prod.splits option.splits)

lemma pacing_out_effects:
  "pacing (out_effects (executeRestart io env servers log)) = pacing (snd (runHosts io env servers log))"
  by (simp add: executeRestart_def Let_def pacing_append pacing_emitIf
      split: prod.splits option.splits)

lemma calls_executeRestart:
  "calls (out_effects (executeRestart io env servers log)) =
     concat (map (\<lambda>s. PingCall s # (if restart_pingServer (pingOf env s) then [RebootCall s] else []))
       (sortServers servers))"
  by (simp add: calls_out_effects calls_append runHosts_eq calls_emitIf calls_concat comp_def
      calls_hostEffects)

lemma attempted_executeRestart:
  "attempted (out_effects (executeRestart io env servers log)) = sortServers servers"
  by (simp add: attempted_out_effects attempted_append runHosts_eq attempted_emitIf
      attempted_concat comp_def attempted_hostEffects)

lemma pacing_executeRestart:
  "pacing (out_effects (executeRestart io env servers log)) =
     concat (map (\<lambda>s. PingCall s #
                    (if restart_pingServer (pingOf env s)
                     then RebootCall s #
                            (if hostFailure env s = None \<and> restartDelay s > 0
                             then [Sleep (timerDelay (restartDelay s * 1000))] else [])
                     else []))
       (sortServers servers))"
  by (simp add: pacing_out_effects pacing_append runHosts_eq pacing_emitIf pacing_concat comp_def
      pacing_hostEffects)

lemma set_insertServer: "set (insertServer x ys) = insert x (set ys)"
  by (induction ys) auto

lemma sorted_insertServer:
  "sorted (map restartOrder ys) \<Longrightarrow> sorted (map restartOrder (insertServer x ys))"
  by (induction ys) (auto simp: compareOrder_def set_insertServer)

lemma sorted_sortServers: "sorted (map restartOrder (sortServers xs))"
  by (induction xs) (simp_all add: sorted_insertServer)

lemma mset_insertServer: "mset (insertServer x ys) = add_mset x (mset ys)"
  by (induction ys) simp_all

lemma mset_sortServers: "mset (sortServers xs) = mset xs"
  by (induction xs) (simp_all add: mset_insertServer)

lemma filter_insertServer:
  "filter (\<lambda>s. restartOrder s = k) (insertServer x ys) =
     (if restartOrder x = k then x # filter (\<lambda>s. restartOrder s = k) ys
      else filter (\<lambda>s. restartOrder s = k) ys)"
  by (induction ys) (auto simp: compareOrder_def)

lemma filter_sortServers:
  "filter (\<lambda>s. restartOrder s = k) (sortServers xs) = filter (\<lambda>s. restartOrder s = k) xs"
  by (induction xs) (simp_all add: filter_insertServer)


lemmas host_defs = frontHost_def backHost_def dbHost_def batchLog_def

lemmas restart_defs = executeRestart_def runHosts_def restartServer_def recordFailure_def
  executeSSHReboot_def emitIf_def compareOrder_def statusText_def timerDelay_def

lemma length_insertServer: "length (insertServer x ys) = Suc (length ys)"
  by (induction ys) simp_all

lemma length_sortServers: "length (sortServers xs) = length xs"
  by (induction xs) (simp_all add: length_insertServer)

lemma set_sortServers: "set (sortServers xs) = set xs"
  by (induction xs) (simp_all add: set_insertServer)

lemma one_outcome_per_host:
  "length (concat (map (hostSuccesses env) ss)) + length (concat (map (hostErrors env) ss))
     = length ss"
  by (induction ss) (auto simp: hostSuccesses_def hostErrors_def split: option.splits)

lemma errors_empty_iff:
  "concat (map (hostErrors env) ss) = [] \<longleftrightarrow> (\<forall>s\<in>set ss. hostFailure env s = None)"
  by (induction ss) (auto simp: hostErrors_def split: option.splits)

lemma hostErrors_member:
  "s \<in> set ss \<Longrightarrow> hostFailure env s = Some m \<Longrightarrow>
     \<lparr>ee_serverId = server_id s, ee_serverName = name s, ee_error = m\<rparr>
       \<in> set (concat (map (hostErrors env) ss))"
  by (induction ss) (auto simp: hostErrors_def)

lemma stored_details:
  "finalWrite env = None \<Longrightarrow>
     storedErrors (out_log (executeRestart io env servers log))
       = d_errors (fst (runHosts io env servers log))
     \<and> storedSuccesses (out_log (executeRestart io env servers log))
       = d_servers (fst (runHosts io env servers log))"
  by (simp add: executeRestart_def Let_def storedErrors_def storedSuccesses_def
      split: prod.splits)

lemma stored_after_rejection:
  "finalWrite env = Some m \<Longrightarrow>
     log_details (out_log (executeRestart io env servers log)) =
       (case handlerWrite env of None \<Rightarrow> Some (ErrorDetail m) | Some m' \<Rightarrow> log_details log)"
  by (simp add: executeRestart_def Let_def split: prod.splits option.splits)

text \<open>
  Claim C5, as amended. In every batch, each host is pinged first; the reboot command is
  invoked once, right after the ping, for a host whose ping succeeded and never for a host
  whose ping failed; every host of the batch is processed. When the store accepts the
  final update, a host whose ping failed is among the errors of the stored batch, as not
  reachable. When the store rejects the final update, the stored batch holds no per-host
  entry: its details are the error of that update, or are left as they were when the
  update of the handler is rejected too.
\<close>

theorem preflight_gates_reboot:
  "calls (out_effects (executeRestart io env servers log)) =
     concat (map (\<lambda>s. PingCall s #
                    (if restart_pingServer (pingOf env s) then [RebootCall s] else []))
       (attempted (out_effects (executeRestart io env servers log))))
   \<and> mset (attempted (out_effects (executeRestart io env servers log))) = mset servers
   \<and> (finalWrite env = None \<longrightarrow>
        (\<forall>s\<in>set servers. \<not> restart_pingServer (pingOf env s) \<longrightarrow>
          \<lparr>ee_serverId = server_id s, ee_serverName = name s,
            ee_error = ''Server '' @ ipAddress s @ '' is not reachable via ping''\<rparr>
            \<in> set (storedErrors (out_log (executeRestart io env servers log)))))
   \<and> (\<forall>m. finalWrite env = Some m \<longrightarrow>
        log_details (out_log (executeRestart io env servers log)) =
          (case handlerWrite env of None \<Rightarrow> Some (ErrorDetail m)
           | Some m' \<Rightarrow> log_details log))"
proof -
  have "\<lparr>ee_serverId = server_id s, ee_serverName = name s,
          ee_error = ''Server '' @ ipAddress s @ '' is not reachable via ping''\<rparr>
          \<in> set (storedErrors (out_log (executeRestart io env servers log)))"
    if "finalWrite env = None" "s \<in> set servers" "\<not> restart_pingServer (pingOf env s)" for s
    using that hostErrors_member [of s "sortServers servers" env]
    by (simp add: stored_details runHosts_eq set_sortServers hostFailure_def)
  then show ?thesis
    by (simp add: calls_executeRestart attempted_executeRestart mset_sortServers
        stored_after_rejection)
qed

theorem preflight_gates_reboot_witness:
  "calls (out_effects (executeRestart True envBackDown [frontHost, backHost] batchLog)) =
     [PingCall backHost, PingCall frontHost, RebootCall frontHost]
   \<and> finalWrite envBackDown = None
   \<and> \<not> restart_pingServer (pingOf envBackDown backHost)
   \<and> storedErrors (out_log (executeRestart True envBackDown [frontHost, backHost] batchLog)) =
       [\<lparr>ee_serverId = 2, ee_serverName = ''back'',
         ee_error = ''Server 192.168.1.15 is not reachable via ping''\<rparr>]
   \<and> finalWrite envBackDownWriteRejected = Some ''deadlock''
   \<and> log_details
        (out_log (executeRestart True envBackDownWriteRejected [frontHost, backHost] batchLog))
       = Some (ErrorDetail ''deadlock'')"
  using preflight_gates_reboot [of True envBackDown "[frontHost, backHost]" batchLog]
    preflight_gates_reboot [of True envBackDownWriteRejected "[frontHost, backHost]" batchLog]
  by (simp add: host_defs envBackDown_def envBackDownWriteRejected_def restart_defs calls_def
      storedErrors_def)

text \<open>
  A host fails its ping in a batch whose final update the store rejects: the reboot
  command is not invoked for it, and the stored batch has no entry for it.
\<close>

theorem unreachable_host_not_stored_counterexample:
  "\<not> restart_pingServer (pingOf envBackDownWriteRejected backHost)
   \<and> calls (out_effects
        (executeRestart True envBackDownWriteRejected [frontHost, backHost] batchLog)) =
       [PingCall backHost, PingCall frontHost, RebootCall frontHost]
   \<and> log_details
        (out_log (executeRestart True envBackDownWriteRejected [frontHost, backHost] batchLog))
       = Some (ErrorDetail ''deadlock'')
   \<and> storedErrors
        (out_log (executeRestart True envBackDownWriteRejected [frontHost, backHost] batchLog))
       = []"
  by (simp add: host_defs envBackDownWriteRejected_def restart_defs calls_def storedErrors_def)

text \<open>
  Claim C8. In every batch, the hosts are processed in non-decreasing \<open>restartOrder\<close>;
  the processed hosts are the hosts of the input, and hosts with the same \<open>restartOrder\<close>
  are processed in the order they have in the input.
\<close>

theorem restart_order_stable:
  "sorted (map restartOrder (attempted (out_effects (executeRestart io env servers log))))
   \<and> mset (attempted (out_effects (executeRestart io env servers log))) = mset servers
   \<and> (\<forall>k. filter (\<lambda>s. restartOrder s = k)
              (attempted (out_effects (executeRestart io env servers log)))
            = filter (\<lambda>s. restartOrder s = k) servers)"
  by (simp add: attempted_executeRestart sorted_sortServers mset_sortServers filter_sortServers)

theorem restart_order_stable_witness:
  "attempted (out_effects (executeRestart True envBackDown [frontHost, dbHost, backHost] batchLog))
     = [backHost, frontHost, dbHost]
   \<and> map restartOrder [frontHost, dbHost, backHost] = [2, 2, 1]
   \<and> sorted (map restartOrder
        (attempted (out_effects (executeRestart True envBackDown [frontHost, dbHost, backHost] batchLog))))"
  using restart_order_stable [of True envBackDown "[frontHost, dbHost, backHost]" batchLog]
  by (simp add: host_defs envBackDown_def restart_defs attempted_def)

text \<open>
  Claim C9, as amended. In every batch, when the restart of a host fails (ping failure,
  ssh error or timeout), the hosts after it in the processing order are still pinged and,
  when reachable, rebooted. When the store accepts the final update, the failure is among
  the errors of the stored batch and every host of the batch has exactly one stored entry,
  a success or an error. When the store rejects the final update, the stored batch holds no
  per-host entry: its details are the error of that update, or are left as they were when
  the update of the handler is rejected too.
\<close>

theorem failure_does_not_abort_batch:
  assumes "attempted (out_effects (executeRestart io env servers log)) = pre @ s # post"
    and "hostFailure env s = Some m"
  shows "calls (out_effects (executeRestart io env servers log)) =
           concat (map (\<lambda>s. PingCall s #
                    (if restart_pingServer (pingOf env s) then [RebootCall s] else [])) pre)
           @ PingCall s # (if restart_pingServer (pingOf env s) then [RebootCall s] else [])
           @ concat (map (\<lambda>s. PingCall s #
                    (if restart_pingServer (pingOf env s) then [RebootCall s] else [])) post)
    \<and> mset (pre @ s # post) = mset servers
    \<and> (finalWrite env = None \<longrightarrow>
          \<lparr>ee_serverId = server_id s, ee_serverName = name s, ee_error = m\<rparr>
            \<in> set (storedErrors (out_log (executeRestart io env servers log)))
          \<and> length (storedSuccesses (out_log (executeRestart io env servers log)))
              + length (storedErrors (out_log (executeRestart io env servers log)))
              = length servers)
    \<and> (\<forall>e. finalWrite env = Some e \<longrightarrow>
          log_details (out_log (executeRestart io env servers log)) =
            (case handlerWrite env of None \<Rightarrow> Some (ErrorDetail e)
             | Some e' \<Rightarrow> log_details log))"
proof -
  have sorted: "sortServers servers = pre @ s # post"
    using assms(1) by (simp add: attempted_executeRestart)
  have "s \<in> set (sortServers servers)"
    by (simp add: sorted)
  then have "\<lparr>ee_serverId = server_id s, ee_serverName = name s, ee_error = m\<rparr>
          \<in> set (d_errors (fst (runHosts io env servers log)))"
    using hostErrors_member [of s "sortServers servers" env m] assms(2)
    by (simp add: runHosts_eq)
  moreover have "mset (pre @ s # post) = mset servers"
    using mset_sortServers [of servers] by (simp add: sorted)
  moreover have "length (d_servers (fst (runHosts io env servers log)))
        + length (d_errors (fst (runHosts io env servers log))) = length servers"
    using one_outcome_per_host [of env "sortServers servers"]
    by (simp add: runHosts_eq length_sortServers)
  ultimately show ?thesis
    by (simp add: calls_executeRestart sorted stored_details stored_after_rejection)
qed

theorem failure_does_not_abort_batch_witness:
  "attempted (out_effects (executeRestart True envBackDown [frontHost, dbHost, backHost] batchLog))
     = [] @ backHost # [frontHost, dbHost]
   \<and> hostFailure envBackDown backHost = Some ''Server 192.168.1.15 is not reachable via ping''
   \<and> calls (out_effects (executeRestart True envBackDown [frontHost, dbHost, backHost] batchLog))
      = [PingCall backHost, PingCall frontHost, RebootCall frontHost, PingCall dbHost,
         RebootCall dbHost]
   \<and> finalWrite envBackDown = None
   \<and> map se_id (storedSuccesses
        (out_log (executeRestart True envBackDown [frontHost, dbHost, backHost] batchLog)))
       = [1, 3]
   \<and> map ee_serverId (storedErrors
        (out_log (executeRestart True envBackDown [frontHost, dbHost, backHost] batchLog)))
       = [2]
   \<and> attempted (out_effects
        (executeRestart True envBackHangsStoreDown [frontHost, dbHost, backHost] batchLog))
       = [] @ backHost # [frontHost, dbHost]
   \<and> hostFailure envBackHangsStoreDown backHost = Some ''SSH command timeout''
   \<and> finalWrite envBackHangsStoreDown = Some ''connection lost''
   \<and> log_details (out_log
        (executeRestart True envBackHangsStoreDown [frontHost, dbHost, backHost] batchLog))
       = None"
proof -
  have a: "attempted (out_effects (executeRestart True envBackDown [frontHost, dbHost, backHost] batchLog))
     = [] @ backHost # [frontHost, dbHost]"
    by (simp add: host_defs envBackDown_def restart_defs attempted_def)
  have f: "hostFailure envBackDown backHost = Some ''Server 192.168.1.15 is not reachable via ping''"
    by (simp add: host_defs envBackDown_def hostFailure_def)
  have a': "attempted (out_effects
        (executeRestart True envBackHangsStoreDown [frontHost, dbHost, backHost] batchLog))
       = [] @ backHost # [frontHost, dbHost]"
    by (simp add: host_defs envBackHangsStoreDown_def restart_defs attempted_def)
  have f': "hostFailure envBackHangsStoreDown backHost = Some ''SSH command timeout''"
    by (simp add: host_defs envBackHangsStoreDown_def hostFailure_def executeSSHReboot_def)
  show ?thesis
    using a f a' f' failure_does_not_abort_batch [OF a f]
      failure_does_not_abort_batch [OF a' f']
    by (simp add: host_defs envBackDown_def envBackHangsStoreDown_def restart_defs
        storedErrors_def storedSuccesses_def)
qed

text \<open>
  The ssh session of a host times out in a batch for which the store rejects both updates:
  the hosts after it are still pinged and rebooted, and the stored batch, left as it was,
  has no entry for the failure.
\<close>

theorem failure_not_stored_counterexample:
  "hostFailure envBackHangsStoreDown backHost = Some ''SSH command timeout''
   \<and> calls (out_effects
        (executeRestart True envBackHangsStoreDown [frontHost, dbHost, backHost] batchLog))
      = [PingCall backHost, RebootCall backHost, PingCall frontHost, RebootCall frontHost,
         PingCall dbHost, RebootCall dbHost]
   \<and> out_log (executeRestart True envBackHangsStoreDown [frontHost, dbHost, backHost] batchLog)
       = batchLog
   \<and> log_details batchLog = None
   \<and> storedErrors
        (out_log (executeRestart True envBackHangsStoreDown [frontHost, dbHost, backHost] batchLog))
       = []"
  by (simp add: host_defs envBackHangsStoreDown_def restart_defs calls_def storedErrors_def
      hostFailure_def)

text \<open>
  Claim C3, as amended. In every batch, the steps of each host are, in order: the ping;
  when the ping succeeded, the reboot command; and, when the restart succeeded and the
  host's \<open>restartDelay\<close> is positive, a pause before the next host is pinged. After a
  failed restart there is no pause. For a \<open>restartDelay\<close> of at most 2147483 seconds the
  pause lasts exactly \<open>restartDelay\<close> seconds.
\<close>

theorem pacing_after_success_only:
  "pacing (out_effects (executeRestart io env servers log)) =
     concat (map (\<lambda>s. PingCall s #
                    (if restart_pingServer (pingOf env s)
                     then RebootCall s #
                            (if hostFailure env s = None \<and> restartDelay s > 0
                             then [Sleep (timerDelay (restartDelay s * 1000))] else [])
                     else []))
       (attempted (out_effects (executeRestart io env servers log))))
   \<and> (\<forall>n. 0 < n \<and> n \<le> 2147483 \<longrightarrow> timerDelay (n * 1000) = n * 1000)"
  by (simp add: pacing_executeRestart attempted_executeRestart timerDelay_def)

theorem pacing_after_success_only_witness:
  "pacing (out_effects (executeRestart True envAllUp [frontHost, backHost] batchLog)) =
     [PingCall backHost, RebootCall backHost, Sleep 30000, PingCall frontHost,
      RebootCall frontHost]
   \<and> hostFailure envAllUp backHost = None \<and> restartDelay backHost = 30
   \<and> (0::int) < 30 \<and> (30::int) \<le> 2147483 \<and> timerDelay (30 * 1000) = 30 * 1000"
  using pacing_after_success_only [of True envAllUp "[frontHost, backHost]" batchLog]
  by (simp add: host_defs envAllUp_def restart_defs attempted_def hostFailure_def)

text \<open>
  A host with a \<open>restartDelay\<close> of 30 s fails its ping: the next host is pinged without
  a pause. A host with a \<open>restartDelay\<close> of 2147484 s is restarted: the timer fires after
  one millisecond.
\<close>

theorem no_pacing_after_failure_counterexample:
  "restartDelay backHost = 30
   \<and> hostFailure envBackDown backHost = Some ''Server 192.168.1.15 is not reachable via ping''
   \<and> pacing (out_effects (executeRestart True envBackDown [frontHost, backHost] batchLog)) =
       [PingCall backHost, PingCall frontHost, RebootCall frontHost]
   \<and> restartDelay archiveHost = 2147484
   \<and> hostFailure envAllUp archiveHost = None
   \<and> pacing (out_effects (executeRestart True envAllUp [archiveHost, frontHost] batchLog)) =
       [PingCall archiveHost, RebootCall archiveHost, Sleep 1, PingCall frontHost,
        RebootCall frontHost]"
  by (simp add: host_defs archiveHost_def envBackDown_def envAllUp_def restart_defs pacing_def
      hostFailure_def)

text \<open>
  Claim C1, as amended. When the store accepts the final update, the batch gets an end
  time and is \<open>completed\<close> if and only if no host failed, \<open>failed\<close> otherwise. When the
  store rejects the final update and accepts the update of the handler, the batch is
  \<open>failed\<close> with the error as its detail and gets an end time. When the store rejects
  both updates, the row is left as it was and the promise of \<open>executeRestart\<close> rejects.
\<close>

theorem batch_outcome:
  "(finalWrite env = None \<longrightarrow>
      endTime (out_log (executeRestart io env servers log)) = Some (finalClock env)
      \<and> (log_status (out_log (executeRestart io env servers log)) = Completed
           \<longleftrightarrow> d_errors (fst (runHosts io env servers log)) = [])
      \<and> (log_status (out_log (executeRestart io env servers log)) = Failed
           \<longleftrightarrow> d_errors (fst (runHosts io env servers log)) \<noteq> [])
      \<and> (d_errors (fst (runHosts io env servers log)) = []
           \<longleftrightarrow> (\<forall>s\<in>set servers. hostFailure env s = None))
      \<and> log_details (out_log (executeRestart io env servers log))
           = Some (HostDetails (fst (runHosts io env servers log)))
      \<and> out_rejected (executeRestart io env servers log) = None)
   \<and> (\<forall>m. finalWrite env = Some m \<and> handlerWrite env = None \<longrightarrow>
      endTime (out_log (executeRestart io env servers log)) = Some (handlerClock env)
      \<and> log_status (out_log (executeRestart io env servers log)) = Failed
      \<and> log_details (out_log (executeRestart io env servers log)) = Some (ErrorDetail m)
      \<and> out_rejected (executeRestart io env servers log) = None)
   \<and> (\<forall>m m'. finalWrite env = Some m \<and> handlerWrite env = Some m' \<longrightarrow>
      out_log (executeRestart io env servers log) = log
      \<and> out_rejected (executeRestart io env servers log) = Some m')"
proof -
  have "d_errors (fst (runHosts io env servers log)) = []
           \<longleftrightarrow> (\<forall>s\<in>set servers. hostFailure env s = None)"
    using errors_empty_iff [of env "sortServers servers"]
    by (simp add: runHosts_eq set_sortServers)
  then show ?thesis
    by (auto simp: executeRestart_def Let_def split: prod.splits)
qed

theorem batch_outcome_witness:
  "finalWrite envBackDown = None
   \<and> log_status (out_log (executeRestart True envBackDown [frontHost, backHost] batchLog)) = Failed
   \<and> endTime (out_log (executeRestart True envBackDown [frontHost, backHost] batchLog)) = Some 2000
   \<and> log_status (out_log (executeRestart True envAllUp [frontHost, backHost] batchLog)) = Completed
   \<and> endTime (out_log (executeRestart True envAllUp [frontHost, backHost] batchLog)) = Some 2000
   \<and> finalWrite envFinalWriteFails = Some ''deadlock'' \<and> handlerWrite envFinalWriteFails = None
   \<and> log_status (out_log (executeRestart True envFinalWriteFails [frontHost, backHost] batchLog))
       = Failed
   \<and> log_details (out_log (executeRestart True envFinalWriteFails [frontHost, backHost] batchLog))
       = Some (ErrorDetail ''deadlock'')
   \<and> endTime (out_log (executeRestart True envFinalWriteFails [frontHost, backHost] batchLog))
       = Some 3000
   \<and> finalWrite envStoreDown = Some ''connection lost''
   \<and> handlerWrite envStoreDown = Some ''connection lost''
   \<and> out_log (executeRestart True envStoreDown [frontHost, backHost] batchLog) = batchLog"
  using batch_outcome [of envBackDown True "[frontHost, backHost]" batchLog]
    batch_outcome [of envAllUp True "[frontHost, backHost]" batchLog]
    batch_outcome [of envFinalWriteFails True "[frontHost, backHost]" batchLog]
    batch_outcome [of envStoreDown True "[frontHost, backHost]" batchLog]
  by (simp add: host_defs envBackDown_def envAllUp_def envFinalWriteFails_def envStoreDown_def
      restart_defs hostFailure_def)

text \<open>
  The store rejects the final update and the update of the handler: the batch stays
  \<open>running\<close> without an end time, and the promise of \<open>executeRestart\<close> rejects.
\<close>

theorem batch_stays_running_counterexample:
  "log_status (out_log (executeRestart True envStoreDown [frontHost, backHost] batchLog)) = Running
   \<and> endTime (out_log (executeRestart True envStoreDown [frontHost, backHost] batchLog)) = None
   \<and> out_rejected (executeRestart True envStoreDown [frontHost, backHost] batchLog)
       = Some ''connection lost''"
  by (simp add: host_defs envStoreDown_def restart_defs)

section \<open>The monitoring sweep\<close>

lemma monitorServer_row:
  "fst (monitorServer io e s j) = (if updateRejects e then s else updated e s)"
  by (simp add: monitorServer_def Let_def updated_def probeStatus_def)

lemma monitorServer_result:
  "snd (snd (monitorServer io e s j)) = rejection e s"
  by (simp add: monitorServer_def Let_def rejection_def probeStatus_def)

lemma monitorServer_alerts:
  "alerts (fst (snd (monitorServer io e s j))) =
     alerts j @ (if \<not> updateRejects e \<and> \<not> createRejects e \<and> status s = Online
                    \<and> probeStatus e = Offline
                 then [(updated e s, ''Server is offline'')] else [])"
  by (simp add: monitorServer_def Let_def updated_def probeStatus_def)

lemma monitorServer_errorLog:
  "errorLog (fst (snd (monitorServer io e s j))) = errorLog j"
  by (simp add: monitorServer_def Let_def)

lemma alertedRows_same: "alertedRows env ss ss = []"
  by (induction ss) (simp_all add: alertedRows_def)

lemma alertedRows_Cons:
  "alertedRows env (s # ss) (s' # ss') =
     (if status s = Online \<and> status s' = Offline \<and> \<not> createRejects (env (server_id s))
      then [s'] else []) @ alertedRows env ss ss'"
  by (simp add: alertedRows_def)

lemma monitorLoop_length:
  "monitorLoop io env ss j = (ss', j', r) \<Longrightarrow> length ss' = length ss"
proof (induction ss arbitrary: j ss' j' r)
  case Nil
  then show ?case by simp
next
  case (Cons s ss)
  then show ?case
    by (auto split: if_splits prod.splits option.splits)
qed

lemma monitorLoop_alerts:
  "monitorLoop io env ss j = (ss', j', r) \<Longrightarrow>
     alerts j' = alerts j @ map (\<lambda>s. (s, ''Server is offline'')) (alertedRows env ss ss')"
proof (induction ss arbitrary: j ss' j' r)
  case Nil
  then show ?case by (simp add: alertedRows_def)
next
  case (Cons s ss)
  show ?case
  proof (cases "isActive s")
    case False
    then obtain t where t: "monitorLoop io env ss j = (t, j', r)" "ss' = s # t"
      using Cons.prems by (auto split: prod.splits)
    from Cons.IH [OF t(1)] show ?thesis
      by (simp add: t(2) alertedRows_Cons)
  next
    case True
    obtain s1 j1 r1 where step: "monitorServer io (env (server_id s)) s j = (s1, j1, r1)"
      by (cases "monitorServer io (env (server_id s)) s j") auto
    have s1: "s1 = (if updateRejects (env (server_id s)) then s else updated (env (server_id s)) s)"
      using monitorServer_row [of io "env (server_id s)" s j] step by simp
    have r1: "r1 = rejection (env (server_id s)) s"
      using monitorServer_result [of io "env (server_id s)" s j] step by simp
    have a1: "alerts j1 = alerts j @
        (if \<not> updateRejects (env (server_id s)) \<and> \<not> createRejects (env (server_id s))
            \<and> status s = Online \<and> probeStatus (env (server_id s)) = Offline
         then [(updated (env (server_id s)) s, ''Server is offline'')] else [])"
      using monitorServer_alerts [of io "env (server_id s)" s j] step by simp
    have here: "alerts j1 = alerts j @ map (\<lambda>s. (s, ''Server is offline''))
        (if status s = Online \<and> status s1 = Offline \<and> \<not> createRejects (env (server_id s))
         then [s1] else [])"
      by (auto simp: a1 s1 updated_def)
    show ?thesis
    proof (cases r1)
      case None
      then obtain t where t: "monitorLoop io env ss j1 = (t, j', r)" "ss' = s1 # t"
        using Cons.prems True step by (auto split: prod.splits)
      from Cons.IH [OF t(1)] show ?thesis
        by (simp add: t(2) alertedRows_Cons here)
    next
      case (Some err)
      then have "ss' = s1 # ss" "j' = j1"
        using Cons.prems True step by auto
      then show ?thesis
        by (simp add: alertedRows_Cons alertedRows_same here)
    qed
  qed
qed

lemma monitorAllServers_alerts:
  "alerts (journal (monitorAllServers io e w)) =
     alerts (journal w) @ map (\<lambda>s. (s, ''Server is offline''))
       (alertedRows (hostEnv e) (table w) (table (monitorAllServers io e w)))"
proof (cases "findAllRejects e")
  case True
  then show ?thesis by (simp add: monitorAllServers_def alertedRows_same)
next
  case False
  obtain ss j r where l: "monitorLoop io (hostEnv e) (table w) (journal w) = (ss, j, r)"
    by (cases "monitorLoop io (hostEnv e) (table w) (journal w)") auto
  from monitorLoop_alerts [OF l] False l show ?thesis
    by (cases r) (simp_all add: monitorAllServers_def)
qed

lemma monitorServer_logs:
  "monitorLogs (fst (snd (monitorServer io e s j))) =
     monitorLogs j @ (if \<not> updateRejects e \<and> \<not> createRejects e then [observation e s] else [])"
  by (simp add: monitorServer_def Let_def observation_def probeStatus_def)

lemma rejection_None:
  "rejection e s = None \<Longrightarrow> \<not> updateRejects e \<and> \<not> createRejects e"
  by (simp add: rejection_def split: if_splits)

lemma monitorLoop_accepted:
  "\<forall>s\<in>set ss. isActive s \<longrightarrow> rejection (env (server_id s)) s = None \<Longrightarrow>
   \<exists>j'. monitorLoop io env ss j = (probeAll env ss, j', None)
        \<and> errorLog j' = errorLog j
        \<and> monitorLogs j' = monitorLogs j
             @ map (\<lambda>s. observation (env (server_id s)) s) (filter isActive ss)"
proof (induction ss arbitrary: j)
  case Nil
  then show ?case by (simp add: probeAll_def)
next
  case (Cons s ss)
  have rest: "\<forall>s\<in>set ss. isActive s \<longrightarrow> rejection (env (server_id s)) s = None"
    using Cons.prems by simp
  show ?case
  proof (cases "isActive s")
    case False
    from Cons.IH [OF rest, of j] False show ?thesis
      by (auto simp: probeAll_def)
  next
    case True
    let ?e = "env (server_id s)"
    have ok: "rejection ?e s = None"
      using Cons.prems True by simp
    obtain s1 j1 r1 where step: "monitorServer io ?e s j = (s1, j1, r1)"
      by (cases "monitorServer io ?e s j") auto
    have s1: "s1 = updated ?e s"
      using monitorServer_row [of io ?e s j] step rejection_None [OF ok] by simp
    have r1: "r1 = None"
      using monitorServer_result [of io ?e s j] step ok by simp
    have l1: "monitorLogs j1 = monitorLogs j @ [observation ?e s]"
      using monitorServer_logs [of io ?e s j] step rejection_None [OF ok] by simp
    have e1: "errorLog j1 = errorLog j"
      using monitorServer_errorLog [of io ?e s j] step by simp
    from Cons.IH [OF rest, of j1] obtain j' where
      j': "monitorLoop io env ss j1 = (probeAll env ss, j', None)"
        "errorLog j' = errorLog j1"
        "monitorLogs j' = monitorLogs j1
             @ map (\<lambda>s. observation (env (server_id s)) s) (filter isActive ss)"
      by blast
    show ?thesis
      using True step j' by (simp add: s1 r1 l1 e1 probeAll_def)
  qed
qed

lemma monitorLoop_append:
  "monitorLoop io env (xs @ ys) j =
     (case monitorLoop io env xs j of
        (xs', j', None) \<Rightarrow>
          (case monitorLoop io env ys j' of (ys', j'', r) \<Rightarrow> (xs' @ ys', j'', r))
      | (xs', j', Some err) \<Rightarrow> (xs' @ ys, j', Some err))"
proof (induction xs arbitrary: j)
  case Nil
  then show ?case by (simp split: prod.splits)
next
  case (Cons x xs)
  then show ?case
    by (simp split: prod.splits option.splits)
qed

lemma monitorLoop_rejected:
  assumes "\<forall>x\<in>set pre. isActive x \<longrightarrow> rejection (env (server_id x)) x = None"
    and "isActive s" and "rejection (env (server_id s)) s = Some err"
  shows "\<exists>j'. monitorLoop io env (pre @ s # post) j =
           (probeAll env pre
              @ (if updateRejects (env (server_id s)) then s else updated (env (server_id s)) s)
              # post, j', Some err)
         \<and> errorLog j' = errorLog j"
proof -
  let ?e = "env (server_id s)"
  from monitorLoop_accepted [OF assms(1), of io j] obtain j0 where
    j0: "monitorLoop io env pre j = (probeAll env pre, j0, None)" "errorLog j0 = errorLog j"
    by blast
  obtain s1 j1 r1 where step: "monitorServer io ?e s j0 = (s1, j1, r1)"
    by (cases "monitorServer io ?e s j0") auto
  have s1: "s1 = (if updateRejects ?e then s else updated ?e s)"
    using monitorServer_row [of io ?e s j0] step by simp
  have r1: "r1 = Some err"
    using monitorServer_result [of io ?e s j0] step assms(3) by simp
  have e1: "errorLog j1 = errorLog j0"
    using monitorServer_errorLog [of io ?e s j0] step by simp
  have "monitorLoop io env (s # post) j0 = (s1 # post, j1, Some err)"
    using assms(2) step r1 by simp
  then have "monitorLoop io env (pre @ s # post) j = (probeAll env pre @ s1 # post, j1, Some err)"
    by (simp add: monitorLoop_append j0)
  then show ?thesis
    using s1 e1 j0(2) by auto
qed

lemma monitorLoop_rows:
  "monitorLoop io env ss j = (ss', j', r) \<Longrightarrow>
     list_all2 (\<lambda>s s'. s' = s \<or> (isActive s \<and> \<not> updateRejects (env (server_id s))
                                   \<and> s' = updated (env (server_id s)) s)) ss ss'"
proof (induction ss arbitrary: j ss' j' r)
  case Nil
  then show ?case by simp
next
  case (Cons s ss)
  show ?case
  proof (cases "isActive s")
    case False
    then obtain t where t: "monitorLoop io env ss j = (t, j', r)" "ss' = s # t"
      using Cons.prems by (auto split: prod.splits)
    from Cons.IH [OF t(1)] show ?thesis
      by (simp add: t(2))
  next
    case True
    let ?e = "env (server_id s)"
    obtain s1 j1 r1 where step: "monitorServer io ?e s j = (s1, j1, r1)"
      by (cases "monitorServer io ?e s j") auto
    have s1: "s1 = (if updateRejects ?e then s else updated ?e s)"
      using monitorServer_row [of io ?e s j] step by simp
    show ?thesis
    proof (cases r1)
      case None
      then obtain t where t: "monitorLoop io env ss j1 = (t, j', r)" "ss' = s1 # t"
        using Cons.prems True step by (auto split: prod.splits)
      from Cons.IH [OF t(1)] show ?thesis
        using True by (simp add: t(2) s1)
    next
      case (Some err)
      then have "ss' = s1 # ss"
        using Cons.prems True step by auto
      then show ?thesis
        using True by (simp add: s1 list_all2_same)
    qed
  qed
qed

lemma monitorAllServers_rows:
  "list_all2 (\<lambda>s s'. s' = s \<or> (isActive s \<and> \<not> updateRejects (hostEnv env (server_id s))
                                   \<and> s' = updated (hostEnv env (server_id s)) s))
     (table w) (table (monitorAllServers io env w))"
proof (cases "findAllRejects env")
  case True
  then show ?thesis by (simp add: monitorAllServers_def list_all2_same)
next
  case False
  obtain ss j r where l: "monitorLoop io (hostEnv env) (table w) (journal w) = (ss, j, r)"
    by (cases "monitorLoop io (hostEnv env) (table w) (journal w)") auto
  from monitorLoop_rows [OF l] False l show ?thesis
    by (cases r) (simp_all add: monitorAllServers_def)
qed


lemmas monitor_defs = monitorAllServers_def monitorServer_def okFail_def

lemmas fleet_defs = fleet_def emptyJournal_def frontHost_def dbHost_def probeUp_def
  probeDown_def

lemma runTicks_append: "runTicks io (xs @ ys) st = runTicks io ys (runTicks io xs st)"
  by (induction xs arbitrary: st) simp_all

lemma advanceSweep_idle:
  "k < length (runs st) \<Longrightarrow> pending (runs st ! k) = [] \<Longrightarrow> advanceSweep io k st = st"
  by (simp add: advanceSweep_def)

lemma runTicks_idle:
  "k < length (runs st) \<Longrightarrow> pending (runs st ! k) = [] \<Longrightarrow>
     runTicks io (replicate n (Advance k)) st = st"
  by (induction n) (simp_all add: advanceSweep_idle)

lemma writeRow_here:
  "s1 = (if updateRejects e then s else updated e s) \<Longrightarrow>
     writeRow e (length pre) s1 (pre @ s # ss) = pre @ s1 # ss"
  by (simp add: writeRow_def updated_def)

lemma drain_run:
  assumes "k < length (runs st)"
    and "runs st ! k = \<lparr>runEnv = env, pending = snapshotFrom (length pre) ss\<rparr>"
    and "table (db st) = pre @ ss"
    and "length ss \<le> n"
    and "monitorLoop io env ss (journal (db st)) = (ss', j', r)"
  shows "runTicks io (replicate n (Advance k)) st =
           \<lparr>db = \<lparr>table = pre @ ss',
                   journal = (case r of None \<Rightarrow> j'
                              | Some err \<Rightarrow> j'\<lparr>errorLog := errorLog j' @ [err]\<rparr>)\<rparr>,
            runs = (runs st)[k := \<lparr>runEnv = env, pending = []\<rparr>]\<rparr>"
  using assms
proof (induction ss arbitrary: pre st n ss' j' r)
  case Nil
  have "runTicks io (replicate n (Advance k)) st = st"
    using Nil.prems by (simp add: runTicks_idle)
  moreover have "(runs st)[k := \<lparr>runEnv = env, pending = []\<rparr>] = runs st"
    using Nil.prems by (metis list_update_id snapshotFrom.simps(1))
  ultimately show ?case
    using Nil.prems by simp
next
  case (Cons s ss)
  show ?case
  proof (cases "isActive s")
    case False
    obtain t where t: "monitorLoop io env ss (journal (db st)) = (t, j', r)" "ss' = s # t"
      using Cons.prems(5) False by (auto split: prod.splits)
    have "runTicks io (replicate n (Advance k)) st =
           \<lparr>db = \<lparr>table = (pre @ [s]) @ t,
                   journal = (case r of None \<Rightarrow> j'
                              | Some err \<Rightarrow> j'\<lparr>errorLog := errorLog j' @ [err]\<rparr>)\<rparr>,
            runs = (runs st)[k := \<lparr>runEnv = env, pending = []\<rparr>]\<rparr>"
      using Cons.prems False
      by (intro Cons.IH [OF _ _ _ _ t(1)]) simp_all
    then show ?thesis by (simp add: t(2))
  next
    case True
    let ?e = "env (server_id s)"
    obtain n' where n': "n = Suc n'" "length ss \<le> n'"
      using Cons.prems(4) by (cases n) auto
    obtain s1 j1 r1 where step: "monitorServer io ?e s (journal (db st)) = (s1, j1, r1)"
      by (cases "monitorServer io ?e s (journal (db st))") auto
    have s1: "s1 = (if updateRejects ?e then s else updated ?e s)"
      using monitorServer_row [of io ?e s "journal (db st)"] step by simp
    have w: "writeRow ?e (length pre) s1 (table (db st)) = pre @ s1 # ss"
      using writeRow_here [OF s1] Cons.prems(3) by simp
    have pend: "pending (runs st ! k) = (length pre, s) # snapshotFrom (Suc (length pre)) ss"
      and renv: "runEnv (runs st ! k) = env"
      using Cons.prems(2) True by simp_all
    show ?thesis
    proof (cases r1)
      case (Some err)
      have res: "ss' = s1 # ss" "j' = j1" "r = Some err"
        using Cons.prems(5) True step Some by auto
      let ?st1 = "\<lparr>db = \<lparr>table = pre @ s1 # ss, journal = j1\<lparr>errorLog := errorLog j1 @ [err]\<rparr>\<rparr>,
                    runs = (runs st)[k := \<lparr>runEnv = env, pending = []\<rparr>]\<rparr>"
      have one: "advanceSweep io k st = ?st1"
        using Cons.prems(1) pend renv step Some w by (simp add: advanceSweep_def)
      have "runTicks io (replicate n' (Advance k)) ?st1 = ?st1"
        using Cons.prems(1) by (intro runTicks_idle) simp_all
      then show ?thesis
        using one by (simp add: n'(1) res)
    next
      case None
      obtain t where t: "monitorLoop io env ss j1 = (t, j', r)" "ss' = s1 # t"
        using Cons.prems(5) True step None by (auto split: prod.splits)
      let ?st1 = "\<lparr>db = \<lparr>table = pre @ s1 # ss, journal = j1\<rparr>,
                    runs = (runs st)[k := \<lparr>runEnv = env,
                                            pending = snapshotFrom (Suc (length pre)) ss\<rparr>]\<rparr>"
      have one: "advanceSweep io k st = ?st1"
        using Cons.prems(1) pend renv step None w by (simp add: advanceSweep_def)
      have "runTicks io (replicate n' (Advance k)) ?st1 =
           \<lparr>db = \<lparr>table = (pre @ [s1]) @ t,
                   journal = (case r of None \<Rightarrow> j'
                              | Some err \<Rightarrow> j'\<lparr>errorLog := errorLog j' @ [err]\<rparr>)\<rparr>,
            runs = (runs ?st1)[k := \<lparr>runEnv = env, pending = []\<rparr>]\<rparr>"
        using Cons.prems(1) n'(2) t(1)
        by (intro Cons.IH) simp_all
      then show ?thesis
        using one by (simp add: n'(1) t(2))
    qed
  qed
qed

lemma sweep_in_turn:
  assumes "length (table (db st)) \<le> n"
  shows "runTicks io (Begin e # replicate n (Advance (length (runs st)))) st =
           \<lparr>db = monitorAllServers io e (db st),
            runs = runs st @ [\<lparr>runEnv = hostEnv e, pending = []\<rparr>]\<rparr>"
proof (cases "findAllRejects e")
  case True
  let ?st1 = "beginSweep e st"
  have "runTicks io (replicate n (Advance (length (runs st)))) ?st1 = ?st1"
    using True by (intro runTicks_idle) (simp_all add: beginSweep_def)
  then show ?thesis
    using True by (simp add: beginSweep_def monitorAllServers_def)
next
  case False
  let ?st1 = "beginSweep e st"
  obtain ss j r where l: "monitorLoop io (hostEnv e) (table (db st)) (journal (db st)) = (ss, j, r)"
    by (cases "monitorLoop io (hostEnv e) (table (db st)) (journal (db st))") auto
  have "runTicks io (replicate n (Advance (length (runs st)))) ?st1 =
           \<lparr>db = \<lparr>table = [] @ ss,
                   journal = (case r of None \<Rightarrow> j
                              | Some err \<Rightarrow> j\<lparr>errorLog := errorLog j @ [err]\<rparr>)\<rparr>,
            runs = (runs ?st1)[length (runs st) := \<lparr>runEnv = hostEnv e, pending = []\<rparr>]\<rparr>"
    using False assms l
    by (intro drain_run) (simp_all add: beginSweep_def)
  then show ?thesis
    using False l by (cases r) (simp_all add: beginSweep_def monitorAllServers_def)
qed

lemma monitorAllServers_length:
  "length (table (monitorAllServers io e w)) = length (table w)"
  using monitorAllServers_rows [of e w io] by (simp add: list_all2_lengthD)

lemma inTurn_sweeps:
  "length (table w) \<le> n \<Longrightarrow>
     db (runTicks io (inTurn n (length rs) es) \<lparr>db = w, runs = rs\<rparr>) = sweeps io es w"
proof (induction es arbitrary: w rs)
  case Nil
  then show ?case by simp
next
  case (Cons e es)
  let ?st = "\<lparr>db = w, runs = rs\<rparr>"
  have one: "runTicks io (Begin e # replicate n (Advance (length rs))) ?st =
           \<lparr>db = monitorAllServers io e w,
            runs = rs @ [\<lparr>runEnv = hostEnv e, pending = []\<rparr>]\<rparr>"
    using sweep_in_turn [of ?st n io e] Cons.prems by simp
  have "runTicks io (inTurn n (length rs) (e # es)) ?st =
          runTicks io (inTurn n (Suc (length rs)) es)
            (runTicks io (Begin e # replicate n (Advance (length rs))) ?st)"
    using runTicks_append [of io "Begin e # replicate n (Advance (length rs))"] by simp
  then show ?case
    using Cons.IH [of "monitorAllServers io e w" "rs @ [\<lparr>runEnv = hostEnv e, pending = []\<rparr>]"]
      Cons.prems one
    by (simp add: monitorAllServers_length)
qed

lemma sweeps_alerts:
  "alerts (journal (sweeps io es w)) =
     alerts (journal w) @ map (\<lambda>s. (s, ''Server is offline'')) (alertedTransitions io es w)"
proof (induction es arbitrary: w)
  case Nil
  then show ?case by simp
next
  case (Cons e es)
  show ?case
    by (simp add: Cons.IH monitorAllServers_alerts)
qed

lemmas tick_defs = beginSweep_def advanceSweep_def writeRow_def

text \<open>
  Claim C7, as amended. When the sweeps do not overlap, each one finishing before the next
  begins, they act as sweeps run one after the other, and the alerts dispatched are, in
  order, exactly one for each change of a host's row from \<open>online\<close> to \<open>offline\<close> whose
  observation write was accepted, and no others: none for a change from \<open>unknown\<close> to
  \<open>offline\<close>, none while a host stays \<open>offline\<close>, none when it returns to \<open>online\<close>.
\<close>

theorem alerts_follow_transitions:
  "db (runTicks io (inTurn (length (table w)) 0 es) \<lparr>db = w, runs = []\<rparr>) = sweeps io es w
   \<and> alerts (journal (db (runTicks io (inTurn (length (table w)) 0 es) \<lparr>db = w, runs = []\<rparr>))) =
       alerts (journal w)
         @ map (\<lambda>s. (s, ''Server is offline'')) (alertedTransitions io es w)"
proof -
  have "db (runTicks io (inTurn (length (table w)) (length ([]::sweep_run list)) es)
          \<lparr>db = w, runs = []\<rparr>) = sweeps io es w"
    by (rule inTurn_sweeps) simp
  then show ?thesis
    by (simp add: sweeps_alerts)
qed

theorem alerts_follow_transitions_witness:
  "map status (table fleet) = [Online, Unknown]
   \<and> map status (table (sweeps True [sweepAllDown] fleet)) = [Offline, Offline]
   \<and> map status (table (sweeps True [sweepAllDown, sweepAllDown] fleet)) = [Offline, Offline]
   \<and> map status (table (sweeps True [sweepAllDown, sweepAllDown, sweepAllUp] fleet))
       = [Online, Online]
   \<and> map status (table (sweeps True [sweepAllDown, sweepAllDown, sweepAllUp, sweepFrontDown] fleet))
       = [Offline, Online]
   \<and> map (\<lambda>a. (server_id (fst a), snd a))
        (alerts (journal (db (runTicks True
           (inTurn (length (table fleet)) 0
              [sweepAllDown, sweepAllDown, sweepAllUp, sweepFrontDown])
           \<lparr>db = fleet, runs = []\<rparr>))))
       = [(1, ''Server is offline''), (1, ''Server is offline'')]"
proof -
  have run: "db (runTicks True
           (inTurn (length (table fleet)) 0
              [sweepAllDown, sweepAllDown, sweepAllUp, sweepFrontDown])
           \<lparr>db = fleet, runs = []\<rparr>)
        = sweeps True [sweepAllDown, sweepAllDown, sweepAllUp, sweepFrontDown] fleet"
    using alerts_follow_transitions
      [of True fleet "[sweepAllDown, sweepAllDown, sweepAllUp, sweepFrontDown]"]
    by blast
  show ?thesis
    unfolding run
    by (simp add: monitor_defs fleet_defs sweepAllDown_def sweepAllUp_def sweepFrontDown_def
        Let_def)
qed

text \<open>
  First, a host goes from \<open>online\<close> to \<open>offline\<close> in a sweep in which the write of its
  observation is rejected: no alert is dispatched in that sweep, nor in the sweeps that
  follow. Second, two sweeps overlap: the first has processed the first host when the
  second begins; the second finds both hosts down and alerts for the second host, which its
  query saw \<open>online\<close>; then the first sweep reaches the second host, which its own earlier
  query saw \<open>online\<close> too, and alerts again, although the row is \<open>offline\<close> already.
\<close>

theorem alert_count_counterexample:
  "map status (table fleet) = [Online, Unknown]
   \<and> map status (table (sweeps True [sweepFrontDownLogRejected] fleet)) = [Offline, Unknown]
   \<and> alerts (journal (sweeps True [sweepFrontDownLogRejected, sweepFrontDown, sweepFrontDown] fleet))
       = []
   \<and> map status (table fleetOnline) = [Online, Online]
   \<and> map status (table (db (runTicks True
        [Begin sweepAllDown, Advance 0, Begin sweepAllDown, Advance 1, Advance 1]
        \<lparr>db = fleetOnline, runs = []\<rparr>))) = [Offline, Offline]
   \<and> map (\<lambda>a. server_id (fst a)) (alerts (journal (db (runTicks True
        [Begin sweepAllDown, Advance 0, Begin sweepAllDown, Advance 1, Advance 1]
        \<lparr>db = fleetOnline, runs = []\<rparr>)))) = [1, 2]
   \<and> map status (table (db (runTicks True
        [Begin sweepAllDown, Advance 0, Begin sweepAllDown, Advance 1, Advance 1, Advance 0]
        \<lparr>db = fleetOnline, runs = []\<rparr>))) = [Offline, Offline]
   \<and> map (\<lambda>a. server_id (fst a)) (alerts (journal (db (runTicks True
        [Begin sweepAllDown, Advance 0, Begin sweepAllDown, Advance 1, Advance 1, Advance 0]
        \<lparr>db = fleetOnline, runs = []\<rparr>)))) = [1, 2, 2]"
  by (simp add: monitor_defs tick_defs fleet_defs fleetOnline_def backHost_def
      sweepFrontDownLogRejected_def sweepFrontDown_def sweepAllDown_def Let_def)

text \<open>
  Claim C2, as amended. A probe that fails does not stop a sweep: when the query and every
  update, observation write and alert dispatch of the sweep are accepted, every active host
  is probed, updated and observed, whatever the probes answer, and nothing is logged as an
  error. When one of these calls is rejected for a host, the error is caught and logged,
  the hosts before it keep their updates, and the sweep ends there: the hosts after it
  are left as they were.
\<close>

theorem sweep_isolation:
  assumes "\<not> findAllRejects env"
  shows "((\<forall>s\<in>set (table w). isActive s \<longrightarrow> rejection (hostEnv env (server_id s)) s = None) \<longrightarrow>
            table (monitorAllServers io env w) = probeAll (hostEnv env) (table w)
          \<and> monitorLogs (journal (monitorAllServers io env w)) =
              monitorLogs (journal w)
                @ map (\<lambda>s. observation (hostEnv env (server_id s)) s) (filter isActive (table w))
          \<and> errorLog (journal (monitorAllServers io env w)) = errorLog (journal w))
    \<and> (\<forall>pre s post err.
          table w = pre @ s # post
          \<and> (\<forall>x\<in>set pre. isActive x \<longrightarrow> rejection (hostEnv env (server_id x)) x = None)
          \<and> isActive s \<and> rejection (hostEnv env (server_id s)) s = Some err \<longrightarrow>
            table (monitorAllServers io env w) =
              probeAll (hostEnv env) pre
                @ (if updateRejects (hostEnv env (server_id s)) then s
                   else updated (hostEnv env (server_id s)) s) # post
          \<and> errorLog (journal (monitorAllServers io env w)) = errorLog (journal w) @ [err])"
proof (intro conjI impI allI)
  assume ok: "\<forall>s\<in>set (table w). isActive s \<longrightarrow> rejection (hostEnv env (server_id s)) s = None"
  from monitorLoop_accepted [OF ok, of io "journal w"] obtain j' where
    j': "monitorLoop io (hostEnv env) (table w) (journal w) = (probeAll (hostEnv env) (table w), j', None)"
      "errorLog j' = errorLog (journal w)"
      "monitorLogs j' = monitorLogs (journal w)
         @ map (\<lambda>s. observation (hostEnv env (server_id s)) s) (filter isActive (table w))"
    by blast
  show "table (monitorAllServers io env w) = probeAll (hostEnv env) (table w)"
    using assms j' by (simp add: monitorAllServers_def)
  show "monitorLogs (journal (monitorAllServers io env w)) =
          monitorLogs (journal w)
            @ map (\<lambda>s. observation (hostEnv env (server_id s)) s) (filter isActive (table w))"
    using assms j' by (simp add: monitorAllServers_def)
  show "errorLog (journal (monitorAllServers io env w)) = errorLog (journal w)"
    using assms j' by (simp add: monitorAllServers_def)
next
  fix pre s post err
  assume h: "table w = pre @ s # post
          \<and> (\<forall>x\<in>set pre. isActive x \<longrightarrow> rejection (hostEnv env (server_id x)) x = None)
          \<and> isActive s \<and> rejection (hostEnv env (server_id s)) s = Some err"
  then have h1: "\<forall>x\<in>set pre. isActive x \<longrightarrow> rejection (hostEnv env (server_id x)) x = None"
    and h2: "isActive s" and h3: "rejection (hostEnv env (server_id s)) s = Some err"
    by simp_all
  from monitorLoop_rejected [OF h1 h2 h3, of io post "journal w"] obtain j' where
    j': "monitorLoop io (hostEnv env) (pre @ s # post) (journal w) =
           (probeAll (hostEnv env) pre
              @ (if updateRejects (hostEnv env (server_id s)) then s
                 else updated (hostEnv env (server_id s)) s) # post, j', Some err)"
      "errorLog j' = errorLog (journal w)"
    by blast
  show "table (monitorAllServers io env w) =
              probeAll (hostEnv env) pre
                @ (if updateRejects (hostEnv env (server_id s)) then s
                   else updated (hostEnv env (server_id s)) s) # post"
    using assms j' h by (simp add: monitorAllServers_def)
  show "errorLog (journal (monitorAllServers io env w)) = errorLog (journal w) @ [err]"
    using assms j' h by (simp add: monitorAllServers_def)
qed

theorem sweep_isolation_witness:
  "\<not> findAllRejects sweepFrontDown
   \<and> probeStatus (hostEnv sweepFrontDown 1) = Offline
   \<and> table (monitorAllServers True sweepFrontDown fleet) =
       [frontHost\<lparr>status := Offline\<rparr>,
        dbHost\<lparr>status := Online, lastPing := Some 1041, lastTelnet := Some 1042\<rparr>]
   \<and> map ml_serverId (monitorLogs (journal (monitorAllServers True sweepFrontDown fleet))) = [1, 3]
   \<and> errorLog (journal (monitorAllServers True sweepFrontDown fleet)) = []
   \<and> \<not> findAllRejects sweepFrontUpdateRejected
   \<and> table fleet = [] @ frontHost # [dbHost]
   \<and> isActive frontHost
   \<and> rejection (hostEnv sweepFrontUpdateRejected (server_id frontHost)) frontHost
       = Some (UpdateError 1)
   \<and> table (monitorAllServers True sweepFrontUpdateRejected fleet) = [frontHost, dbHost]
   \<and> errorLog (journal (monitorAllServers True sweepFrontUpdateRejected fleet)) = [UpdateError 1]"
proof -
  have a: "\<not> findAllRejects sweepFrontDown" and b: "\<not> findAllRejects sweepFrontUpdateRejected"
    by (simp_all add: fleet_defs sweepFrontDown_def sweepFrontUpdateRejected_def)
  show ?thesis
    using sweep_isolation [OF a, of fleet True] sweep_isolation [OF b, of fleet True]
    by (simp add: monitor_defs fleet_defs sweepFrontDown_def sweepFrontUpdateRejected_def Let_def probeStatus_def rejection_def
        observation_def probeAll_def updated_def)
qed

text \<open>
  The status update of the first host is rejected: the second host, which is active and
  would answer both probes, keeps the status \<open>unknown\<close> and gets no observation.
\<close>

theorem sweep_aborts_counterexample:
  "updateRejects (hostEnv sweepFrontUpdateRejected 1)
   \<and> table fleet = [frontHost, dbHost]
   \<and> isActive dbHost
   \<and> probeStatus (hostEnv sweepFrontUpdateRejected (server_id dbHost)) = Online
   \<and> status dbHost = Unknown
   \<and> table (monitorAllServers True sweepFrontUpdateRejected fleet) = [frontHost, dbHost]
   \<and> monitorLogs (journal (monitorAllServers True sweepFrontUpdateRejected fleet)) = []"
  by (simp add: monitor_defs fleet_defs sweepFrontUpdateRejected_def Let_def probeStatus_def)



section \<open>The scheduler form's checks\<close>

text \<open>
  Claim C4. The request is rejected when no host is selected. A request for one host whose
  instant is 30 minutes after the current time, entered in a browser one hour ahead of
  UTC, passes the \<open>min\<close> attribute computed at that same time, and \<open>handleSubmit\<close>, which
  compares the instant with the current time only, sends the creation request.
\<close>

theorem half_hour_request_is_sent:
  "handleSubmit (fixedOffset 60) 1800000000000 (halfHourAhead\<lparr>serverIds := []\<rparr>)
     = Toast ''Please select at least one server''
   \<and> serverIds halfHourAhead = [1]
   \<and> scheduledTime halfHourAhead = Some 30000090
   \<and> fromLocal (fixedOffset 60) (30000090 * 60000) = 1800000000000 + 30 * 60000
   \<and> (30000090 - 60) * 60000 = (1800000000000::int) + 30 * 60000
   \<and> getMinDateTime (fixedOffset 60) 1800000000000 = 30000060
   \<and> submitForm (\<lambda>email. False) (fixedOffset 60) 1800000000000 1800000000000 halfHourAhead
       = Some (CreateTask (halfHourAhead\<lparr>notificationEmails := []\<rparr>))
   \<and> handleSubmit (fixedOffset 60) 1800000000000 halfHourAhead
       = CreateTask (halfHourAhead\<lparr>notificationEmails := []\<rparr>)"
  by (simp add: handleSubmit_def submitForm_def constraintsHold_def getMinDateTime_def
      halfHourAhead_def fixedOffset_def)

end
